theory Spec2Isabelle
  imports Complex_Main "HOL-Library.Sublist" "HOL-Library.Char_ord" "HOL-Library.List_Lexorder"
begin

section \<open>Python values\<close>

text \<open>
  A Python \<open>float\<close> is modelled as a real number or one of the three non-finite values that
  \<open>float()\<close> can parse. Arithmetic on finite values is exact: binary64 rounding and overflow
  to infinity are not modelled. \<open>-0.0\<close> and \<open>0.0\<close> are identified (they compare equal).
\<close>

datatype pyfloat = Fin real | PInf | NInf | NaN

text \<open>
  The values that occur in the rows: text (every field the CSV loader produces) and the
  floats that \<open>calculate_invoice_emissions\<close> adds.
\<close>

datatype pyval = Str string | Num pyfloat

datatype error = KeyError string | AttributeError | TypeError

text \<open>
  A \<open>dict\<close> keeps its keys in insertion order; assigning to an existing key keeps the key's
  position and replaces the value.
\<close>

type_synonym 'v pydict = "(string \<times> 'v) list"

definition dict_get :: "'v pydict \<Rightarrow> string \<Rightarrow> 'v option" where
  "dict_get d k = map_of d k"

fun dict_set :: "string \<Rightarrow> 'v \<Rightarrow> 'v pydict \<Rightarrow> 'v pydict" where
  "dict_set k v [] = [(k, v)]"
| "dict_set k v (p # ps) = (if fst p = k then (k, v) # ps else p # dict_set k v ps)"

definition dict_keys :: "'v pydict \<Rightarrow> string list" where
  "dict_keys d = map fst d"

subsection \<open>Float arithmetic and comparison\<close>

fun fneg :: "pyfloat \<Rightarrow> pyfloat" where
  "fneg (Fin x) = Fin (- x)"
| "fneg PInf = NInf"
| "fneg NInf = PInf"
| "fneg NaN = NaN"

fun fsign_inf :: "real \<Rightarrow> pyfloat \<Rightarrow> pyfloat" where
  "fsign_inf x i = (if x = 0 then NaN else if 0 < x then i else fneg i)"

fun fmul :: "pyfloat \<Rightarrow> pyfloat \<Rightarrow> pyfloat" where
  "fmul (Fin x) (Fin y) = Fin (x * y)"
| "fmul NaN _ = NaN"
| "fmul _ NaN = NaN"
| "fmul (Fin x) PInf = fsign_inf x PInf"
| "fmul (Fin x) NInf = fsign_inf x NInf"
| "fmul PInf (Fin y) = fsign_inf y PInf"
| "fmul NInf (Fin y) = fsign_inf y NInf"
| "fmul PInf PInf = PInf"
| "fmul PInf NInf = NInf"
| "fmul NInf PInf = NInf"
| "fmul NInf NInf = PInf"

fun fadd :: "pyfloat \<Rightarrow> pyfloat \<Rightarrow> pyfloat" where
  "fadd (Fin x) (Fin y) = Fin (x + y)"
| "fadd NaN _ = NaN"
| "fadd _ NaN = NaN"
| "fadd PInf NInf = NaN"
| "fadd NInf PInf = NaN"
| "fadd PInf _ = PInf"
| "fadd _ PInf = PInf"
| "fadd NInf _ = NInf"
| "fadd _ NInf = NInf"

text \<open>\<open>x > y\<close> on floats: false whenever a NaN is involved.\<close>

fun fgt :: "pyfloat \<Rightarrow> pyfloat \<Rightarrow> bool" where
  "fgt (Fin x) (Fin y) = (y < x)"
| "fgt NaN _ = False"
| "fgt _ NaN = False"
| "fgt PInf PInf = False"
| "fgt PInf _ = True"
| "fgt _ PInf = False"
| "fgt NInf _ = False"
| "fgt _ NInf = True"

text \<open>\<open>v == 0\<close> for a row value \<open>v\<close>: a string never equals a number.\<close>

fun eq_zero :: "pyval \<Rightarrow> bool" where
  "eq_zero (Num (Fin x)) = (x = 0)"
| "eq_zero _ = False"

section \<open>String operations\<close>

text \<open>
  Strings are sequences of code points below 256. \<open>str.isspace\<close>, \<open>str.lower\<close>,
  \<open>str.strip()\<close> and \<open>str.split()\<close> are given on that range.
\<close>

definition is_space :: "char \<Rightarrow> bool" where
  "is_space c = (let n = (of_char c :: nat)
     in (9 \<le> n \<and> n \<le> 13) \<or> (28 \<le> n \<and> n \<le> 32) \<or> n = 133 \<or> n = 160)"

definition lower_char :: "char \<Rightarrow> char" where
  "lower_char c = (let n = (of_char c :: nat)
     in if (65 \<le> n \<and> n \<le> 90) \<or> (192 \<le> n \<and> n \<le> 214) \<or> (216 \<le> n \<and> n \<le> 222)
        then char_of (n + 32) else c)"

definition py_lower :: "string \<Rightarrow> string" where
  "py_lower s = map lower_char s"

definition py_strip :: "string \<Rightarrow> string" where
  "py_strip s = rev (dropWhile is_space (rev (dropWhile is_space s)))"

text \<open>\<open>s.split()\<close>: the maximal runs of non-whitespace characters, in order.\<close>

fun split_acc :: "string \<Rightarrow> string \<Rightarrow> string list" where
  "split_acc w [] = (if w = [] then [] else [rev w])"
| "split_acc w (c # cs) =
     (if is_space c then (if w = [] then split_acc [] cs else rev w # split_acc [] cs)
      else split_acc (c # w) cs)"

definition py_split :: "string \<Rightarrow> string list" where
  "py_split s = split_acc [] s"

subsection \<open>The builtin \<open>float()\<close>\<close>

definition is_digit :: "char \<Rightarrow> bool" where
  "is_digit c = (let n = (of_char c :: nat) in 48 \<le> n \<and> n \<le> 57)"

definition digit_val :: "char \<Rightarrow> nat" where
  "digit_val c = of_char c - 48"

text \<open>
  \<open>digitpart ::= digit (["_"] digit)*\<close>: the value read, the number of digits read and the
  rest of the input. An underscore is consumed only between two digits.
\<close>

fun digitpart :: "nat \<Rightarrow> nat \<Rightarrow> string \<Rightarrow> nat \<times> nat \<times> string" where
  "digitpart v n [] = (v, n, [])"
| "digitpart v n (c # cs) =
     (if is_digit c then digitpart (10 * v + digit_val c) (Suc n) cs
      else if c = CHR ''_'' \<and> 0 < n \<and> (case cs of [] \<Rightarrow> False | d # _ \<Rightarrow> is_digit d)
           then digitpart v n cs
      else (v, n, c # cs))"

text \<open>\<open>exponent ::= ("e" | "E") ["+" | "-"] digitpart\<close>, then the end of the input.\<close>

definition exponent :: "string \<Rightarrow> int option" where
  "exponent s =
     (case s of
        [] \<Rightarrow> Some 0
      | c # cs \<Rightarrow>
          if c = CHR ''e'' \<or> c = CHR ''E'' then
            (let (neg, ds) = (case cs of
                   [] \<Rightarrow> (False, [])
                 | d # ds' \<Rightarrow> if d = CHR ''-'' then (True, ds')
                              else if d = CHR ''+'' then (False, ds') else (False, cs))
             in case digitpart 0 0 ds of
                  (v, n, rest) \<Rightarrow>
                    if 0 < n \<and> rest = [] then Some (if neg then - int v else int v) else None)
          else None)"

text \<open>
  \<open>floatnumber ::= ([digitpart] "." digitpart | digitpart ["."]) [exponent]\<close>, as a
  non-negative real.
\<close>

definition floatnumber :: "string \<Rightarrow> real option" where
  "floatnumber s =
     (case digitpart 0 0 s of
        (v1, n1, r1) \<Rightarrow>
          (let (v2, n2, r2) = (case r1 of
                  [] \<Rightarrow> (0, 0, [])
                | c # cs \<Rightarrow> if c = CHR ''.'' then digitpart 0 0 cs else (0, 0, r1));
               dotted = (case r1 of [] \<Rightarrow> False | c # _ \<Rightarrow> c = CHR ''.'')
           in if n1 = 0 \<and> (\<not> dotted \<or> n2 = 0) then None
              else (case exponent r2 of
                      None \<Rightarrow> None
                    | Some e \<Rightarrow>
                        (let m = real v1 + real v2 / 10 ^ n2
                         in Some (if 0 \<le> e then m * 10 ^ nat e else m / 10 ^ nat (- e))))))"

definition is_float_space :: "char \<Rightarrow> bool" where
  "is_float_space c = (let n = (of_char c :: nat)
     in (9 \<le> n \<and> n \<le> 13) \<or> n = 32 \<or> n = 133 \<or> n = 160)"

definition absfloatvalue :: "string \<Rightarrow> pyfloat option" where
  "absfloatvalue s =
     (let l = py_lower s
      in if l = ''inf'' \<or> l = ''infinity'' then Some PInf
         else if l = ''nan'' then Some NaN
         else map_option Fin (floatnumber s))"

text \<open>
  \<open>float(s)\<close> for a string: \<open>None\<close> is the \<open>ValueError\<close>. Surrounding whitespace is
  ignored, then comes an optional sign and a decimal number, \<open>inf\<close>, \<open>infinity\<close> or
  \<open>nan\<close> (in any case).
\<close>

definition float_of_str :: "string \<Rightarrow> pyfloat option" where
  "float_of_str s =
     (let t = rev (dropWhile is_float_space (rev (dropWhile is_float_space s)))
      in case t of
           [] \<Rightarrow> None
         | c # cs \<Rightarrow>
             if c = CHR ''-'' then map_option fneg (absfloatvalue cs)
             else if c = CHR ''+'' then absfloatvalue cs
             else absfloatvalue t)"

text \<open>\<open>float(v)\<close> for a row value: a float is returned as it is.\<close>

fun py_float :: "pyval \<Rightarrow> pyfloat option" where
  "py_float (Str s) = float_of_str s"
| "py_float (Num x) = Some x"

section \<open>The library function \<open>difflib.get_close_matches\<close>\<close>

text \<open>
  \<open>SequenceMatcher(None, a, b)\<close> with the default \<open>autojunk\<close>: when \<open>b\<close> has at least 200
  elements, an element that occurs in it more than \<open>len(b) // 100 + 1\<close> times is popular, and
  no matching block is looked for through it.
\<close>

definition popular :: "string \<Rightarrow> char \<Rightarrow> bool" where
  "popular b c = (200 \<le> length b \<and> length b div 100 + 1 < count_list b c)"

fun common_prefix :: "(char \<Rightarrow> bool) \<Rightarrow> string \<Rightarrow> string \<Rightarrow> nat" where
  "common_prefix skip (x # xs) (y # ys) =
     (if x = y \<and> \<not> skip y then Suc (common_prefix skip xs ys) else 0)"
| "common_prefix skip _ _ = 0"

text \<open>
  The longest block \<open>a[i:i+k] == b[j:j+k]\<close> free of popular elements; of the longest blocks
  the one that starts earliest in \<open>a\<close>, and of those the one that starts earliest in \<open>b\<close>.
\<close>

definition longest_block :: "(char \<Rightarrow> bool) \<Rightarrow> string \<Rightarrow> string \<Rightarrow> nat \<times> nat \<times> nat" where
  "longest_block pop a b =
     foldl (\<lambda>(bi, bj, bk) (i, j).
              let k = common_prefix pop (drop i a) (drop j b)
              in if bk < k then (i, j, k) else (bi, bj, bk))
           (0, 0, 0) (List.product [0..<length a] [0..<length b])"

text \<open>
  \<open>find_longest_match\<close>: the block above, then extended to the left and to the right as far
  as the elements agree (popular or not).
\<close>

definition find_longest_match :: "(char \<Rightarrow> bool) \<Rightarrow> string \<Rightarrow> string \<Rightarrow> nat \<times> nat \<times> nat" where
  "find_longest_match pop a b =
     (case longest_block pop a b of
        (i, j, k) \<Rightarrow>
          (let l = common_prefix (\<lambda>_. False) (rev (take i a)) (rev (take j b));
               r = common_prefix (\<lambda>_. False) (drop (i + k) a) (drop (j + k) b)
           in (i - l, j - l, l + k + r)))"

lemma longest_block_bound_aux:
  "foldl (\<lambda>(bi, bj, bk) (i, j).
            let k = common_prefix pop (drop i a) (drop j b)
            in if bk < k then (i, j, k) else (bi, bj, bk)) (i0, j0, k0) ps = (i, j, k)
   \<Longrightarrow> \<forall>p \<in> set ps. fst p < length a \<Longrightarrow> (0 < k0 \<longrightarrow> i0 < length a)
   \<Longrightarrow> (k = 0 \<longrightarrow> i = i0) \<and> (0 < k \<longrightarrow> i < length a) \<and> k0 \<le> k"
proof (induction ps arbitrary: i0 j0 k0)
  case Nil
  then show ?case by simp
next
  case (Cons p ps)
  obtain pi pj where p: "p = (pi, pj)" by (cases p)
  let ?k = "common_prefix pop (drop pi a) (drop pj b)"
  show ?case
  proof (cases "k0 < ?k")
    case True
    with Cons.prems p have
      "foldl (\<lambda>(bi, bj, bk) (i, j).
            let k = common_prefix pop (drop i a) (drop j b)
            in if bk < k then (i, j, k) else (bi, bj, bk)) (pi, pj, ?k) ps = (i, j, k)"
      by simp
    from Cons.IH[OF this] Cons.prems(2) p True show ?thesis by auto
  next
    case False
    with Cons.prems p have
      "foldl (\<lambda>(bi, bj, bk) (i, j).
            let k = common_prefix pop (drop i a) (drop j b)
            in if bk < k then (i, j, k) else (bi, bj, bk)) (i0, j0, k0) ps = (i, j, k)"
      by simp
    from Cons.IH[OF this] Cons.prems(2,3) show ?thesis by auto
  qed
qed

lemma common_prefix_le: "common_prefix skip xs ys \<le> length xs"
  by (induction skip xs ys rule: common_prefix.induct) auto

lemma find_longest_match_bound:
  assumes "find_longest_match pop a b = (i, j, k)" and "k \<noteq> 0"
  shows "i < length a"
proof -
  obtain i0 j0 k0 where lb: "longest_block pop a b = (i0, j0, k0)"
    by (cases "longest_block pop a b")
  from lb have aux: "(k0 = 0 \<longrightarrow> i0 = 0) \<and> (0 < k0 \<longrightarrow> i0 < length a)"
    using longest_block_bound_aux[of pop a b 0 0 0 "List.product [0..<length a] [0..<length b]" i0 j0 k0]
    by (auto simp: longest_block_def)
  from assms lb have i: "i = i0 - common_prefix (\<lambda>_. False) (rev (take i0 a)) (rev (take j0 b))"
    and k: "k = common_prefix (\<lambda>_. False) (rev (take i0 a)) (rev (take j0 b)) + k0
              + common_prefix (\<lambda>_. False) (drop (i0 + k0) a) (drop (j0 + k0) b)"
    by (auto simp: find_longest_match_def Let_def)
  show ?thesis
  proof (cases "k0 = 0")
    case False
    with aux i show ?thesis by simp
  next
    case True
    with aux have i0: "i0 = 0" by simp
    with i k True assms(2) have "0 < common_prefix (\<lambda>_. False) a (drop j0 b)" by simp
    then have "a \<noteq> []" by (cases a) auto
    with i i0 show ?thesis by simp
  qed
qed

text \<open>
  The total size of the matching blocks: the longest match, then recursively the pieces to
  its left and the pieces to its right.
\<close>

function matches :: "(char \<Rightarrow> bool) \<Rightarrow> string \<Rightarrow> string \<Rightarrow> nat" where
  "matches pop a b =
     (case find_longest_match pop a b of
        (i, j, k) \<Rightarrow>
          if k = 0 then 0
          else matches pop (take i a) (take j b) + k
               + matches pop (drop (i + k) a) (drop (j + k) b))"
  by pat_completeness auto
termination
  by (relation "measure (\<lambda>(pop, a, b). length a)")
     (auto dest!: find_longest_match_bound[OF sym])

declare matches.simps [simp del]

text \<open>
  \<open>SequenceMatcher(None, a, b).ratio()\<close>, the quotient of two integers. The library
  compares its binary64 value with the cutoff; for strings of fewer than \<open>10^15\<close>
  characters this agrees with the comparison of the exact quotients made here.
\<close>

definition ratio :: "string \<Rightarrow> string \<Rightarrow> real" where
  "ratio a b =
     (let n = length a + length b
      in if n = 0 then 1 else 2 * real (matches (popular b) a b) / real n)"

text \<open>
  The order of Python on the pairs \<open>(score, x)\<close>: by score, then by the string (code point
  by code point).
\<close>

definition tuple_gt :: "real \<times> string \<Rightarrow> real \<times> string \<Rightarrow> bool" where
  "tuple_gt p q = (fst q < fst p \<or> (fst p = fst q \<and> snd q < snd p))"

text \<open>\<open>max\<close> keeps the first of the largest elements.\<close>

fun py_max :: "real \<times> string \<Rightarrow> (real \<times> string) list \<Rightarrow> real \<times> string" where
  "py_max m [] = m"
| "py_max m (p # ps) = py_max (if tuple_gt p m then p else m) ps"

text \<open>
  \<open>get_close_matches(word, possibilities, n=1, cutoff=0.7)\<close>: every possibility \<open>x\<close> with
  \<open>SequenceMatcher(None, x, word).ratio() >= 0.7\<close> is kept with its score (the two cheaper
  upper bounds that the library tests first never reject such an \<open>x\<close>), and the largest pair
  is returned, in a list of at most one string.
\<close>

definition scored :: "string \<Rightarrow> string list \<Rightarrow> (real \<times> string) list" where
  "scored word possibilities =
     [(ratio x word, x). x \<leftarrow> possibilities, 7 / 10 \<le> ratio x word]"

definition get_close_matches :: "string \<Rightarrow> string list \<Rightarrow> string list" where
  "get_close_matches word possibilities =
     (case scored word possibilities of
        [] \<Rightarrow> []
      | p # ps \<Rightarrow> [snd (py_max p ps)])"

section \<open>The matching engine (\<open>logic.py\<close>)\<close>

type_synonym row = "pyval pydict"

text \<open>\<open>d[k]\<close>: a missing key raises \<open>KeyError\<close>.\<close>

definition dict_lookup :: "'v pydict \<Rightarrow> string \<Rightarrow> error + 'v" where
  "dict_lookup d k = (case dict_get d k of None \<Rightarrow> Inl (KeyError k) | Some v \<Rightarrow> Inr v)"

text \<open>
  The loop that builds \<open>factor_map\<close>. Only the \<open>ValueError\<close> of \<open>float()\<close> is caught (the
  record is skipped); a missing field raises \<open>KeyError\<close> and a category that is not a string
  has no \<open>lower\<close>.
\<close>

fun factor_map_loop :: "pyfloat pydict \<Rightarrow> row list \<Rightarrow> error + pyfloat pydict" where
  "factor_map_loop fm [] = Inr fm"
| "factor_map_loop fm (entry # rest) =
     (case dict_get entry ''category'' of
        None \<Rightarrow> Inl (KeyError ''category'')
      | Some (Num _) \<Rightarrow> Inl AttributeError
      | Some (Str c) \<Rightarrow>
          (case dict_get entry ''factor_kg_co2_per_unit'' of
             None \<Rightarrow> Inl (KeyError ''factor_kg_co2_per_unit'')
           | Some x \<Rightarrow>
               (case py_float x of
                  None \<Rightarrow> factor_map_loop fm rest
                | Some val \<Rightarrow> factor_map_loop (dict_set (py_strip (py_lower c)) val fm) rest)))"

definition factor_map :: "row list \<Rightarrow> error + pyfloat pydict" where
  "factor_map factors_db = factor_map_loop [] factors_db"

text \<open>Step 2: the first known category that is a substring of the description.\<close>

fun substring_loop :: "pyfloat pydict \<Rightarrow> string \<Rightarrow> string list \<Rightarrow> (error + pyfloat) option" where
  "substring_loop fm clean_desc [] = None"
| "substring_loop fm clean_desc (category # rest) =
     (if sublist category clean_desc then Some (dict_lookup fm category)
      else substring_loop fm clean_desc rest)"

text \<open>
  Step 3: the words of the description, left to right; the first word with a close match
  decides. \<open>gcm word known_categories\<close> stands for the call of
  \<open>difflib.get_close_matches(word, known_categories, n=1, cutoff=0.7)\<close>.
\<close>

fun fuzzy_loop ::
  "(string \<Rightarrow> string list \<Rightarrow> string list) \<Rightarrow> pyfloat pydict \<Rightarrow> string list \<Rightarrow> error + pyfloat" where
  "fuzzy_loop gcm fm [] = Inr (Fin 0)"
| "fuzzy_loop gcm fm (word # rest) =
     (case gcm word (dict_keys fm) of
        [] \<Rightarrow> fuzzy_loop gcm fm rest
      | best_match # _ \<Rightarrow> dict_lookup fm best_match)"

definition get_emission_factor_with ::
  "(string \<Rightarrow> string list \<Rightarrow> string list) \<Rightarrow> pyval \<Rightarrow> row list \<Rightarrow> error + pyfloat" where
  "get_emission_factor_with gcm item_description factors_db =
     (case item_description of
        Num _ \<Rightarrow> Inl AttributeError
      | Str d \<Rightarrow>
          (let clean_desc = py_strip (py_lower d)
           in case factor_map factors_db of
                Inl e \<Rightarrow> Inl e
              | Inr fm \<Rightarrow>
                  (case substring_loop fm clean_desc (dict_keys fm) of
                     Some r \<Rightarrow> r
                   | None \<Rightarrow> fuzzy_loop gcm fm (py_split clean_desc))))"

definition get_emission_factor :: "pyval \<Rightarrow> row list \<Rightarrow> error + pyfloat" where
  "get_emission_factor = get_emission_factor_with get_close_matches"

text \<open>\<open>row.get('item_description', 'Unknown')\<close>.\<close>

definition row_description :: "row \<Rightarrow> pyval" where
  "row_description r =
     (case dict_get r ''item_description'' of None \<Rightarrow> Str ''Unknown'' | Some v \<Rightarrow> v)"

text \<open>\<open>float(row.get('quantity', 1))\<close>, and \<open>1.0\<close> on \<open>ValueError\<close>.\<close>

definition row_quantity :: "row \<Rightarrow> pyfloat" where
  "row_quantity r =
     (case dict_get r ''quantity'' of
        None \<Rightarrow> Fin 1
      | Some v \<Rightarrow> (case py_float v of None \<Rightarrow> Fin 1 | Some q \<Rightarrow> q))"

text \<open>One iteration of the loop of \<open>calculate_invoice_emissions\<close>, on the row's content.\<close>

definition process_row :: "row \<Rightarrow> row list \<Rightarrow> error + row" where
  "process_row r factors_db =
     (let description = row_description r;
          qty = row_quantity r
      in case get_emission_factor description factors_db of
           Inl e \<Rightarrow> Inl e
         | Inr factor \<Rightarrow>
             (let total_co2 = fmul qty factor;
                  new_row = r;
                  new_row = dict_set ''matched_factor'' (Num factor) new_row;
                  new_row = dict_set ''total_line_co2'' (Num total_co2) new_row
              in Inr new_row))"

fun calculate_invoice_emissions :: "row list \<Rightarrow> row list \<Rightarrow> error + row list" where
  "calculate_invoice_emissions [] factors_db = Inr []"
| "calculate_invoice_emissions (r # rest) factors_db =
     (case process_row r factors_db of
        Inl e \<Rightarrow> Inl e
      | Inr new_row \<Rightarrow>
          (case calculate_invoice_emissions rest factors_db of
             Inl e \<Rightarrow> Inl e
           | Inr processed \<Rightarrow> Inr (new_row # processed)))"

subsection \<open>The same loop on a store of dict objects\<close>

text \<open>
  The rows are objects: \<open>invoice_data\<close> is a list of references into a store, \<open>row.copy()\<close>
  allocates a new object, and the two assignments mutate the object that \<open>new_row\<close> refers
  to. A reference is an index into the store.
\<close>

type_synonym store = "row list"

definition process_row_st :: "store \<Rightarrow> nat \<Rightarrow> row list \<Rightarrow> error + nat \<times> store" where
  "process_row_st h r factors_db =
     (let description = row_description (h ! r);
          qty = row_quantity (h ! r)
      in case get_emission_factor description factors_db of
           Inl e \<Rightarrow> Inl e
         | Inr factor \<Rightarrow>
             (let total_co2 = fmul qty factor;
                  new_row = length h;
                  h = h @ [h ! r];
                  h = h[new_row := dict_set ''matched_factor'' (Num factor) (h ! new_row)];
                  h = h[new_row := dict_set ''total_line_co2'' (Num total_co2) (h ! new_row)]
              in Inr (new_row, h)))"

fun calculate_invoice_emissions_st :: "store \<Rightarrow> nat list \<Rightarrow> row list \<Rightarrow> error + nat list \<times> store" where
  "calculate_invoice_emissions_st h [] factors_db = Inr ([], h)"
| "calculate_invoice_emissions_st h (r # rest) factors_db =
     (case process_row_st h r factors_db of
        Inl e \<Rightarrow> Inl e
      | Inr (new_row, h') \<Rightarrow>
          (case calculate_invoice_emissions_st h' rest factors_db of
             Inl e \<Rightarrow> Inl e
           | Inr (processed, h'') \<Rightarrow> Inr (new_row # processed, h'')))"

section \<open>The aggregation (\<open>analytics.py\<close>)\<close>

text \<open>The three values that \<open>generate_text_report\<close> computes and prints.\<close>

record report =
  total_co2 :: pyfloat
  highest_item :: "pyval option"
  highest_val :: pyfloat
  unmatched_count :: nat

text \<open>
  The loop over the rows, with the state \<open>(total_co2, highest_item, highest_val)\<close>. Adding a
  string to the float total raises \<open>TypeError\<close>.
\<close>

fun report_loop ::
  "pyfloat \<times> pyval option \<times> pyfloat \<Rightarrow> row list \<Rightarrow> error + pyfloat \<times> pyval option \<times> pyfloat" where
  "report_loop st [] = Inr st"
| "report_loop (tot, item, hv) (r # rest) =
     (case dict_get r ''total_line_co2'' of
        None \<Rightarrow> Inl (KeyError ''total_line_co2'')
      | Some (Str _) \<Rightarrow> Inl TypeError
      | Some (Num co2) \<Rightarrow>
          if fgt co2 hv then
            (case dict_get r ''item_description'' of
               None \<Rightarrow> Inl (KeyError ''item_description'')
             | Some d \<Rightarrow> report_loop (fadd tot co2, Some d, co2) rest)
          else report_loop (fadd tot co2, item, hv) rest)"

text \<open>\<open>sum(1 for row in processed_data if row['matched_factor'] == 0)\<close>.\<close>

fun count_unmatched :: "nat \<Rightarrow> row list \<Rightarrow> error + nat" where
  "count_unmatched n [] = Inr n"
| "count_unmatched n (r # rest) =
     (case dict_get r ''matched_factor'' of
        None \<Rightarrow> Inl (KeyError ''matched_factor'')
      | Some v \<Rightarrow> count_unmatched (if eq_zero v then Suc n else n) rest)"

definition generate_text_report :: "row list \<Rightarrow> error + report" where
  "generate_text_report processed_data =
     (case report_loop (Fin 0, None, Fin (- 1)) processed_data of
        Inl e \<Rightarrow> Inl e
      | Inr (tot, item, hv) \<Rightarrow>
          (case count_unmatched 0 processed_data of
             Inl e \<Rightarrow> Inl e
           | Inr n \<Rightarrow>
               Inr \<lparr>total_co2 = tot, highest_item = item, highest_val = hv,
                    unmatched_count = n\<rparr>))"

section \<open>Notions used to state the properties\<close>

text \<open>\<open>x <= y\<close> on floats.\<close>

fun fle :: "pyfloat \<Rightarrow> pyfloat \<Rightarrow> bool" where
  "fle (Fin x) (Fin y) = (x \<le> y)"
| "fle NaN _ = False"
| "fle _ NaN = False"
| "fle NInf _ = True"
| "fle _ PInf = True"
| "fle PInf _ = False"
| "fle _ NInf = False"



text \<open>A factor record that carries a text category and a factor field.\<close>

definition factor_record_ok :: "row \<Rightarrow> bool" where
  "factor_record_ok e =
     (case dict_get e ''category'' of
        Some (Str _) \<Rightarrow> (case dict_get e ''factor_kg_co2_per_unit'' of Some _ \<Rightarrow> True | None \<Rightarrow> False)
      | _ \<Rightarrow> False)"

text \<open>
  What a record contributes to the index: its normalized category and its factor, or nothing
  when the factor does not parse.
\<close>

definition record_entry :: "row \<Rightarrow> (string \<times> pyfloat) option" where
  "record_entry e =
     (case dict_get e ''category'' of
        Some (Str c) \<Rightarrow>
          (case dict_get e ''factor_kg_co2_per_unit'' of
             Some x \<Rightarrow> map_option (\<lambda>v. (py_strip (py_lower c), v)) (py_float x)
           | None \<Rightarrow> None)
      | _ \<Rightarrow> None)"

text \<open>An invoice line whose description, when present, is text.\<close>

definition description_is_text :: "row \<Rightarrow> bool" where
  "description_is_text r =
     (case dict_get r ''item_description'' of Some (Num _) \<Rightarrow> False | _ \<Rightarrow> True)"

section \<open>Properties of dictionaries\<close>

lemma dict_get_set: "dict_get (dict_set k v d) k' = (if k' = k then Some v else dict_get d k')"
  by (induction d) (auto simp: dict_get_def)

lemma dict_keys_set:
  "dict_keys (dict_set k v d) = (if k \<in> set (dict_keys d) then dict_keys d else dict_keys d @ [k])"
  by (induction d) (auto simp: dict_keys_def)

lemma distinct_dict_set: "distinct (dict_keys d) \<Longrightarrow> distinct (dict_keys (dict_set k v d))"
  by (simp add: dict_keys_set)

lemma dict_keys_get: "k \<in> set (dict_keys d) \<longleftrightarrow> (\<exists>v. dict_get d k = Some v)"
proof -
  have "k \<in> set (dict_keys d) \<longleftrightarrow> dict_get d k \<noteq> None"
    by (simp add: dict_keys_def dict_get_def map_of_eq_None_iff)
  then show ?thesis by auto
qed

section \<open>Properties of the reference index\<close>

lemma factor_map_loop_step:
  "factor_record_ok e \<Longrightarrow>
   factor_map_loop fm (e # rest) =
     (case record_entry e of
        None \<Rightarrow> factor_map_loop fm rest
      | Some (k, v) \<Rightarrow> factor_map_loop (dict_set k v fm) rest)"
  by (auto simp: factor_record_ok_def record_entry_def split: option.splits pyval.splits)

lemma factor_map_loop_append:
  "factor_map_loop fm (xs @ ys) =
     (case factor_map_loop fm xs of Inl e \<Rightarrow> Inl e | Inr fm' \<Rightarrow> factor_map_loop fm' ys)"
  by (induction xs arbitrary: fm) (auto split: option.splits pyval.splits)

lemma factor_map_loop_ok:
  "list_all factor_record_ok db \<Longrightarrow> \<exists>fm'. factor_map_loop fm db = Inr fm'"
proof (induction db arbitrary: fm)
  case Nil
  then show ?case by simp
next
  case (Cons e db)
  then have "factor_record_ok e" and "list_all factor_record_ok db" by simp_all
  with Cons.IH show ?case
    by (cases "record_entry e") (auto simp: factor_map_loop_step simp del: factor_map_loop.simps)
qed

lemma factor_map_loop_keys:
  "list_all factor_record_ok db \<Longrightarrow> factor_map_loop fm db = Inr fm' \<Longrightarrow>
   set (dict_keys fm') = set (dict_keys fm) \<union> {k. \<exists>e \<in> set db. \<exists>v. record_entry e = Some (k, v)}"
proof (induction db arbitrary: fm)
  case Nil
  then show ?case by simp
next
  case (Cons e db)
  then have ok: "factor_record_ok e" "list_all factor_record_ok db" by simp_all
  show ?case
  proof (cases "record_entry e")
    case None
    with Cons.prems(2) ok have "factor_map_loop fm db = Inr fm'"
      by (simp add: factor_map_loop_step del: factor_map_loop.simps)
    from Cons.IH[OF ok(2) this] None show ?thesis by auto
  next
    case (Some p)
    obtain k v where p: "p = (k, v)" by (cases p)
    with Some Cons.prems(2) ok have "factor_map_loop (dict_set k v fm) db = Inr fm'"
      by (simp add: factor_map_loop_step del: factor_map_loop.simps)
    from Cons.IH[OF ok(2) this] Some p show ?thesis
      by (auto simp: dict_keys_set)
  qed
qed

lemma factor_map_loop_distinct:
  "list_all factor_record_ok db \<Longrightarrow> factor_map_loop fm db = Inr fm' \<Longrightarrow>
   distinct (dict_keys fm) \<Longrightarrow> distinct (dict_keys fm')"
proof (induction db arbitrary: fm)
  case Nil
  then show ?case by simp
next
  case (Cons e db)
  then have ok: "factor_record_ok e" "list_all factor_record_ok db" by simp_all
  show ?case
  proof (cases "record_entry e")
    case None
    with Cons.prems(2) ok have "factor_map_loop fm db = Inr fm'"
      by (simp add: factor_map_loop_step del: factor_map_loop.simps)
    from Cons.IH[OF ok(2) this Cons.prems(3)] show ?thesis .
  next
    case (Some p)
    obtain k v where p: "p = (k, v)" by (cases p)
    with Some Cons.prems(2) ok have "factor_map_loop (dict_set k v fm) db = Inr fm'"
      by (simp add: factor_map_loop_step del: factor_map_loop.simps)
    from Cons.IH[OF ok(2) this distinct_dict_set[OF Cons.prems(3)]] show ?thesis .
  qed
qed

lemma factor_map_loop_untouched:
  "list_all factor_record_ok db \<Longrightarrow> factor_map_loop fm db = Inr fm' \<Longrightarrow>
   \<forall>e \<in> set db. \<forall>v. record_entry e \<noteq> Some (k, v) \<Longrightarrow> dict_get fm' k = dict_get fm k"
proof (induction db arbitrary: fm)
  case Nil
  then show ?case by simp
next
  case (Cons e db)
  then have ok: "factor_record_ok e" "list_all factor_record_ok db" by simp_all
  from Cons.prems(3) have rest: "\<forall>e \<in> set db. \<forall>v. record_entry e \<noteq> Some (k, v)" by simp
  show ?case
  proof (cases "record_entry e")
    case None
    with Cons.prems(2) ok have "factor_map_loop fm db = Inr fm'"
      by (simp add: factor_map_loop_step del: factor_map_loop.simps)
    from Cons.IH[OF ok(2) this rest] show ?thesis .
  next
    case (Some p)
    obtain k' v where p: "p = (k', v)" by (cases p)
    with Some Cons.prems(3) have "k' \<noteq> k" by auto
    from p Some Cons.prems(2) ok have "factor_map_loop (dict_set k' v fm) db = Inr fm'"
      by (simp add: factor_map_loop_step del: factor_map_loop.simps)
    from Cons.IH[OF ok(2) this rest] \<open>k' \<noteq> k\<close> show ?thesis
      by (simp add: dict_get_set)
  qed
qed

lemma factor_map_loop_filter:
  "list_all factor_record_ok db \<Longrightarrow>
   factor_map_loop fm (filter (\<lambda>e. record_entry e \<noteq> None) db) = factor_map_loop fm db"
proof (induction db arbitrary: fm)
  case Nil
  then show ?case by simp
next
  case (Cons e db)
  then have ok: "factor_record_ok e" "list_all factor_record_ok db" by simp_all
  with Cons.IH show ?case
    by (cases "record_entry e") (auto simp: factor_map_loop_step simp del: factor_map_loop.simps)
qed

lemma record_entry_iff:
  "record_entry e = Some (k, v) \<longleftrightarrow>
     (\<exists>c x. dict_get e ''category'' = Some (Str c) \<and> k = py_strip (py_lower c)
        \<and> dict_get e ''factor_kg_co2_per_unit'' = Some x \<and> py_float x = Some v)"
  by (auto simp: record_entry_def split: option.splits pyval.splits)

lemma record_entry_None_iff:
  "factor_record_ok e \<Longrightarrow>
   record_entry e = None \<longleftrightarrow>
     (\<exists>x. dict_get e ''factor_kg_co2_per_unit'' = Some x \<and> py_float x = None)"
  by (auto simp: factor_record_ok_def record_entry_def split: option.splits pyval.splits)

text \<open>
  C3. For every sequence of factor records that carry a text category and a factor field,
  the index is built without an error; its keys are distinct and are exactly the categories,
  lowercased and stripped, of the records whose factor parses; the records whose factor does
  not parse are excluded (the index is the one built from the other records alone); and the
  value stored under a key is the factor of the last record in input order that has this
  key.
\<close>

theorem reference_index:
  assumes ok: "list_all factor_record_ok db"
  shows "\<exists>fm. factor_map db = Inr fm
           \<and> distinct (dict_keys fm)
           \<and> (\<forall>k. k \<in> set (dict_keys fm) \<longleftrightarrow>
                 (\<exists>e \<in> set db. \<exists>v c x.
                    dict_get e ''category'' = Some (Str c) \<and> k = py_strip (py_lower c)
                    \<and> dict_get e ''factor_kg_co2_per_unit'' = Some x \<and> py_float x = Some v))
           \<and> factor_map (filter (\<lambda>e. record_entry e \<noteq> None) db) = Inr fm
           \<and> (\<forall>pre e post k v.
                 db = pre @ e # post \<and> record_entry e = Some (k, v)
                 \<and> (\<forall>e' \<in> set post. \<forall>v'. record_entry e' \<noteq> Some (k, v'))
                 \<longrightarrow> dict_get fm k = Some v)"
proof -
  from factor_map_loop_ok[OF ok, of "[]"] obtain fm where fm: "factor_map_loop [] db = Inr fm"
    by blast
  have keys: "\<forall>k. k \<in> set (dict_keys fm) \<longleftrightarrow>
                 (\<exists>e \<in> set db. \<exists>v c x.
                    dict_get e ''category'' = Some (Str c) \<and> k = py_strip (py_lower c)
                    \<and> dict_get e ''factor_kg_co2_per_unit'' = Some x \<and> py_float x = Some v)"
    using factor_map_loop_keys[OF ok fm] by (simp add: dict_keys_def record_entry_iff)
  have dist: "distinct (dict_keys fm)"
    using factor_map_loop_distinct[OF ok fm] by (simp add: dict_keys_def)
  have filt: "factor_map (filter (\<lambda>e. record_entry e \<noteq> None) db) = Inr fm"
    using factor_map_loop_filter[OF ok, of "[]"] fm by (simp add: factor_map_def)
  have last: "dict_get fm k = Some v"
    if db: "db = pre @ e # post" and e: "record_entry e = Some (k, v)"
      and later: "\<forall>e' \<in> set post. \<forall>v'. record_entry e' \<noteq> Some (k, v')"
    for pre e post k v
  proof -
    from ok db have okp: "list_all factor_record_ok pre" "factor_record_ok e"
      "list_all factor_record_ok post" by simp_all
    from factor_map_loop_ok[OF okp(1), of "[]"] obtain fm1
      where fm1: "factor_map_loop [] pre = Inr fm1" by blast
    from fm db fm1 have "factor_map_loop fm1 (e # post) = Inr fm"
      by (simp add: factor_map_loop_append)
    with okp(2) e have post: "factor_map_loop (dict_set k v fm1) post = Inr fm"
      by (simp add: factor_map_loop_step del: factor_map_loop.simps)
    from factor_map_loop_untouched[OF okp(3) post later] show ?thesis
      by (simp add: dict_get_set)
  qed
  show ?thesis
  proof (intro exI[of _ fm] conjI)
    show "factor_map db = Inr fm" using fm by (simp add: factor_map_def)
    show "distinct (dict_keys fm)" by (rule dist)
    show "\<forall>k. k \<in> set (dict_keys fm) \<longleftrightarrow>
                 (\<exists>e \<in> set db. \<exists>v c x.
                    dict_get e ''category'' = Some (Str c) \<and> k = py_strip (py_lower c)
                    \<and> dict_get e ''factor_kg_co2_per_unit'' = Some x \<and> py_float x = Some v)"
      by (rule keys)
    show "factor_map (filter (\<lambda>e. record_entry e \<noteq> None) db) = Inr fm" by (rule filt)
    show "\<forall>pre e post k v.
                 db = pre @ e # post \<and> record_entry e = Some (k, v)
                 \<and> (\<forall>e' \<in> set post. \<forall>v'. record_entry e' \<noteq> Some (k, v'))
                 \<longrightarrow> dict_get fm k = Some v"
      using last by blast
  qed
qed

text \<open>
  Two records normalize to \<open>laptop\<close>: the later factor 300 is stored; the record whose
  factor is \<open>n/a\<close> leaves no key.
\<close>

theorem reference_index_witness:
  "\<exists>fm. factor_map
       [[(''category'', Str '' Laptop ''), (''factor_kg_co2_per_unit'', Str ''250.0'')],
        [(''category'', Str ''coffee''), (''factor_kg_co2_per_unit'', Str ''n/a'')],
        [(''category'', Str ''LAPTOP''), (''factor_kg_co2_per_unit'', Str ''300'')]] = Inr fm
     \<and> dict_get fm ''laptop'' = Some (Fin 300)
     \<and> ''coffee'' \<notin> set (dict_keys fm)"
proof -
  let ?r1 = "[(''category'', Str '' Laptop ''), (''factor_kg_co2_per_unit'', Str ''250.0'')]"
  let ?r2 = "[(''category'', Str ''coffee''), (''factor_kg_co2_per_unit'', Str ''n/a'')]"
  let ?r3 = "[(''category'', Str ''LAPTOP''), (''factor_kg_co2_per_unit'', Str ''300'')]"
  let ?db = "[?r1, ?r2, ?r3]"
  have ok: "list_all factor_record_ok ?db" by code_simp
  have e1: "record_entry ?r1 = Some (''laptop'', Fin 250)" by code_simp
  have e2: "record_entry ?r2 = None" by code_simp
  have e3: "record_entry ?r3 = Some (''laptop'', Fin 300)" by code_simp
  from reference_index[OF ok] obtain fm
    where fm: "factor_map ?db = Inr fm"
      and filt: "factor_map (filter (\<lambda>e. record_entry e \<noteq> None) ?db) = Inr fm"
      and last: "\<forall>pre e post k v.
                 ?db = pre @ e # post \<and> record_entry e = Some (k, v)
                 \<and> (\<forall>e' \<in> set post. \<forall>v'. record_entry e' \<noteq> Some (k, v'))
                 \<longrightarrow> dict_get fm k = Some v"
    by blast
  from last[rule_format, of "[?r1, ?r2]" ?r3 "[]" "''laptop''" "Fin 300"] e3
  have l: "dict_get fm ''laptop'' = Some (Fin 300)" by simp
  have "filter (\<lambda>e. record_entry e \<noteq> None) ?db = [?r1, ?r3]"
    by (simp add: e1 e2 e3)
  with filt have "factor_map [?r1, ?r3] = Inr fm" by simp
  moreover have "factor_map [?r1, ?r3] = Inr [(''laptop'', Fin 300)]" by code_simp
  ultimately have "fm = [(''laptop'', Fin 300)]" by simp
  then have "''coffee'' \<notin> set (dict_keys fm)" by (simp add: dict_keys_def)
  with fm l show ?thesis by blast
qed

text \<open>
  The order of the keys of the index: the normalized categories of the records whose factor
  parses, in input order, each at its first occurrence.
\<close>

lemma remdups_drop_later: "k \<in> set bs \<Longrightarrow> remdups (as @ k # bs) = remdups (as @ bs)"
  by (induction as) auto

lemma first_occurrence_known:
  "k \<in> set ks \<Longrightarrow> rev (remdups (rev (ks @ k # rest))) = rev (remdups (rev (ks @ rest)))"
  by (simp add: remdups_drop_later)

lemma factor_map_loop_key_order:
  "list_all factor_record_ok db \<Longrightarrow> factor_map_loop fm db = Inr fm' \<Longrightarrow>
   rev (remdups (rev (dict_keys fm' @ later)))
     = rev (remdups (rev (dict_keys fm @ map fst (List.map_filter record_entry db) @ later)))"
proof (induction db arbitrary: fm)
  case Nil
  then show ?case by (simp add: List.map_filter_simps)
next
  case (Cons e db)
  then have ok: "factor_record_ok e" "list_all factor_record_ok db" by simp_all
  show ?case
  proof (cases "record_entry e")
    case None
    with Cons.prems(2) ok have "factor_map_loop fm db = Inr fm'"
      by (simp add: factor_map_loop_step del: factor_map_loop.simps)
    from Cons.IH[OF ok(2) this] None show ?thesis by (simp add: List.map_filter_simps)
  next
    case (Some p)
    obtain k v where p: "p = (k, v)" by (cases p)
    with Some Cons.prems(2) ok have "factor_map_loop (dict_set k v fm) db = Inr fm'"
      by (simp add: factor_map_loop_step del: factor_map_loop.simps)
    from Cons.IH[OF ok(2) this]
    have ih: "rev (remdups (rev (dict_keys fm' @ later)))
        = rev (remdups (rev (dict_keys (dict_set k v fm)
                               @ map fst (List.map_filter record_entry db) @ later)))" .
    show ?thesis
    proof (cases "k \<in> set (dict_keys fm)")
      case True
      from first_occurrence_known[OF True, of "map fst (List.map_filter record_entry db) @ later"]
      show ?thesis using ih True Some p
        by (simp add: dict_keys_set List.map_filter_simps)
    next
      case False
      with ih Some p show ?thesis by (simp add: dict_keys_set List.map_filter_simps)
    qed
  qed
qed

lemma factor_map_key_order:
  assumes "list_all factor_record_ok db" and "factor_map db = Inr fm"
  shows "dict_keys fm = rev (remdups (rev (map fst (List.map_filter record_entry db))))"
proof -
  have d: "distinct (dict_keys fm)"
    using factor_map_loop_distinct[OF assms(1), of "[]" fm] assms(2)
    by (simp add: factor_map_def dict_keys_def)
  from factor_map_loop_key_order[OF assms(1), of "[]" fm "[]"] assms(2)
  have "rev (remdups (rev (dict_keys fm)))
      = rev (remdups (rev (map fst (List.map_filter record_entry db))))"
    by (simp add: factor_map_def dict_keys_def)
  moreover from d have "rev (remdups (rev (dict_keys fm))) = dict_keys fm"
    by (simp add: distinct_remdups_id)
  ultimately show ?thesis by simp
qed

section \<open>Properties of the matcher\<close>

lemma dict_lookup_key: "k \<in> set (dict_keys fm) \<Longrightarrow> \<exists>v. dict_get fm k = Some v \<and> dict_lookup fm k = Inr v"
  by (auto simp: dict_keys_get dict_lookup_def)

lemma substring_loop_none:
  "\<forall>c \<in> set ks. \<not> sublist c clean \<Longrightarrow> substring_loop fm clean ks = None"
  by (induction ks) auto

lemma substring_loop_first:
  "\<forall>c \<in> set pre. \<not> sublist c clean \<Longrightarrow> sublist c clean \<Longrightarrow>
   substring_loop fm clean (pre @ c # post) = Some (dict_lookup fm c)"
  by (induction pre) auto

lemma first_match_split:
  "\<exists>c \<in> set ks. P c \<Longrightarrow> \<exists>pre c post. ks = pre @ c # post \<and> P c \<and> (\<forall>c' \<in> set pre. \<not> P c')"
  by (metis split_list_first_prop)

lemma first_substring_category_decides:
  assumes fm: "factor_map db = Inr fm"
      and some: "\<exists>c \<in> set (dict_keys fm). sublist c (py_strip (py_lower d))"
  shows "\<exists>pre c post v.
           dict_keys fm = pre @ c # post
           \<and> sublist c (py_strip (py_lower d))
           \<and> (\<forall>c' \<in> set pre. \<not> sublist c' (py_strip (py_lower d)))
           \<and> dict_get fm c = Some v
           \<and> get_emission_factor (Str d) db = Inr v
           \<and> (\<forall>gcm. get_emission_factor_with gcm (Str d) db = Inr v)"
proof -
  let ?clean = "py_strip (py_lower d)"
  from first_match_split[OF some] obtain pre c post
    where ks: "dict_keys fm = pre @ c # post" and c: "sublist c ?clean"
      and pre: "\<forall>c' \<in> set pre. \<not> sublist c' ?clean" by blast
  from ks have "c \<in> set (dict_keys fm)" by simp
  from dict_lookup_key[OF this] obtain v
    where v: "dict_get fm c = Some v" "dict_lookup fm c = Inr v" by blast
  have "substring_loop fm ?clean (dict_keys fm) = Some (Inr v)"
    using substring_loop_first[OF pre c, of fm post] ks v by simp
  with fm have "get_emission_factor_with gcm (Str d) db = Inr v" for gcm
    by (simp add: get_emission_factor_with_def)
  with ks c pre v show ?thesis
    unfolding get_emission_factor_def by blast
qed

text \<open>
  C1. If some key of the index is a contiguous substring of the normalized description, then
  \<open>get_emission_factor\<close> returns the factor of the first such key in the order of the index,
  whatever the fuzzy matcher would answer: the fuzzy tier is not consulted.
\<close>

theorem substring_tier_first_category:
  assumes fm: "factor_map db = Inr fm"
      and some: "\<exists>c \<in> set (dict_keys fm). sublist c (py_strip (py_lower d))"
  shows "\<exists>pre c post v.
           dict_keys fm = pre @ c # post
           \<and> sublist c (py_strip (py_lower d))
           \<and> (\<forall>c' \<in> set pre. \<not> sublist c' (py_strip (py_lower d)))
           \<and> dict_get fm c = Some v
           \<and> get_emission_factor (Str d) db = Inr v
           \<and> (\<forall>gcm. get_emission_factor_with gcm (Str d) db = Inr v)"
  using fm some by (rule first_substring_category_decides)

text \<open>
  Both categories occur in the description; \<open>laptop\<close> is the first in the index and
  decides, although \<open>coffee\<close> comes first in the description.
\<close>

theorem substring_tier_first_category_witness:
  "factor_map [[(''category'', Str ''laptop''), (''factor_kg_co2_per_unit'', Str ''250.0'')],
               [(''category'', Str ''coffee''), (''factor_kg_co2_per_unit'', Str ''5.0'')]]
     = Inr [(''laptop'', Fin 250), (''coffee'', Fin 5)]
   \<and> sublist ''coffee'' (py_strip (py_lower ''Coffee for the Laptop team''))
   \<and> sublist ''laptop'' (py_strip (py_lower ''Coffee for the Laptop team''))
   \<and> (\<forall>gcm. get_emission_factor_with gcm (Str ''Coffee for the Laptop team'')
         [[(''category'', Str ''laptop''), (''factor_kg_co2_per_unit'', Str ''250.0'')],
          [(''category'', Str ''coffee''), (''factor_kg_co2_per_unit'', Str ''5.0'')]]
        = Inr (Fin 250))"
proof -
  let ?db = "[[(''category'', Str ''laptop''), (''factor_kg_co2_per_unit'', Str ''250.0'')],
               [(''category'', Str ''coffee''), (''factor_kg_co2_per_unit'', Str ''5.0'')]]"
  let ?fm = "[(''laptop'', Fin 250), (''coffee'', Fin 5)]"
  let ?d = "''Coffee for the Laptop team''"
  have fm: "factor_map ?db = Inr ?fm" by code_simp
  have s1: "sublist ''coffee'' (py_strip (py_lower ?d))" by code_simp
  have s2: "sublist ''laptop'' (py_strip (py_lower ?d))" by code_simp
  have some: "\<exists>c \<in> set (dict_keys ?fm). sublist c (py_strip (py_lower ?d))"
    using s2 by (simp add: dict_keys_def)
  have val: "get_emission_factor (Str ?d) ?db = Inr (Fin 250)" by code_simp
  from substring_tier_first_category[OF fm some] obtain v
    where "get_emission_factor (Str ?d) ?db = Inr v"
      and "\<forall>gcm. get_emission_factor_with gcm (Str ?d) ?db = Inr v" by blast
  with val have "\<forall>gcm. get_emission_factor_with gcm (Str ?d) ?db = Inr (Fin 250)" by simp
  with fm s1 s2 show ?thesis by blast
qed

lemma is_space_lower: "is_space c \<Longrightarrow> lower_char c = c"
  by (auto simp: is_space_def lower_char_def Let_def)

lemma strip_all_space: "\<forall>c \<in> set d. is_space c \<Longrightarrow> py_strip (py_lower d) = []"
proof -
  assume a: "\<forall>c \<in> set d. is_space c"
  then have l: "py_lower d = d" by (simp add: py_lower_def is_space_lower map_idI)
  from a have e: "dropWhile is_space d = []" by simp
  show ?thesis unfolding py_strip_def l e by simp
qed

text \<open>
  C6, as amended. For every reference table whose index has no empty key, the empty
  description and every description made of whitespace only get the factor \<open>0.0\<close>: no key
  is a substring of the empty string, and the fuzzy tier has no word to try.
\<close>

theorem blank_description_no_match:
  assumes fm: "factor_map db = Inr fm"
      and nonempty: "[] \<notin> set (dict_keys fm)"
      and blank: "\<forall>c \<in> set d. is_space c"
  shows "get_emission_factor (Str d) db = Inr (Fin 0)
         \<and> (\<forall>gcm. get_emission_factor_with gcm (Str d) db = Inr (Fin 0))"
proof -
  have clean: "py_strip (py_lower d) = []" using blank by (rule strip_all_space)
  have "\<forall>c \<in> set (dict_keys fm). \<not> sublist c []" using nonempty by auto
  then have "substring_loop fm [] (dict_keys fm) = None" by (rule substring_loop_none)
  with fm clean have "get_emission_factor_with gcm (Str d) db = Inr (Fin 0)" for gcm
    by (simp add: get_emission_factor_with_def py_split_def)
  then show ?thesis unfolding get_emission_factor_def by blast
qed

text \<open>A description of three spaces against the two categories of the self-check of \<open>logic.py\<close>.\<close>

theorem blank_description_no_match_witness:
  "factor_map [[(''category'', Str ''laptop''), (''factor_kg_co2_per_unit'', Str ''250.0'')],
               [(''category'', Str ''coffee''), (''factor_kg_co2_per_unit'', Str ''5.0'')]]
     = Inr [(''laptop'', Fin 250), (''coffee'', Fin 5)]
   \<and> [] \<notin> set (dict_keys [(''laptop'', Fin 250), (''coffee'', Fin 5)])
   \<and> py_strip (py_lower ''   '') = []
   \<and> get_emission_factor (Str ''   '')
        [[(''category'', Str ''laptop''), (''factor_kg_co2_per_unit'', Str ''250.0'')],
         [(''category'', Str ''coffee''), (''factor_kg_co2_per_unit'', Str ''5.0'')]]
      = Inr (Fin 0)"
proof -
  let ?db = "[[(''category'', Str ''laptop''), (''factor_kg_co2_per_unit'', Str ''250.0'')],
               [(''category'', Str ''coffee''), (''factor_kg_co2_per_unit'', Str ''5.0'')]]"
  let ?fm = "[(''laptop'', Fin 250), (''coffee'', Fin 5)]"
  have fm: "factor_map ?db = Inr ?fm" by code_simp
  have ne: "[] \<notin> set (dict_keys ?fm)" by (simp add: dict_keys_def)
  have blank: "\<forall>c \<in> set ''   ''. is_space c" by (simp add: is_space_def)
  have clean: "py_strip (py_lower ''   '') = []" by code_simp
  from blank_description_no_match[OF fm ne blank] fm ne clean show ?thesis by blast
qed

text \<open>
  C6 as stated fails: a record with an empty category gives the index an empty key, which is
  a substring of the empty description.
\<close>

theorem blank_description_counterexample:
  "get_emission_factor (Str [])
     [[(''category'', Str []), (''factor_kg_co2_per_unit'', Str ''5.0'')]] = Inr (Fin 5)"
  by code_simp

lemma tuple_gt_trans: "tuple_gt a b \<Longrightarrow> tuple_gt b c \<Longrightarrow> tuple_gt a c"
  by (auto simp: tuple_gt_def)

lemma tuple_gt_neg_trans: "\<not> tuple_gt a b \<Longrightarrow> \<not> tuple_gt b c \<Longrightarrow> \<not> tuple_gt a c"
  by (auto simp: tuple_gt_def not_less)

lemma py_max_props:
  "py_max m ps \<in> set (m # ps) \<and> \<not> tuple_gt m (py_max m ps)
   \<and> (\<forall>q \<in> set ps. \<not> tuple_gt q (py_max m ps))"
proof (induction ps arbitrary: m)
  case Nil
  then show ?case by (simp add: tuple_gt_def)
next
  case (Cons p ps)
  let ?m = "if tuple_gt p m then p else m"
  let ?r = "py_max ?m ps"
  from Cons.IH[of ?m] have r: "?r \<in> set (?m # ps)" "\<not> tuple_gt ?m ?r"
    "\<forall>q \<in> set ps. \<not> tuple_gt q ?r" by simp_all
  have 1: "?r \<in> set (m # p # ps)" using r(1) by (auto split: if_splits)
  have 2: "\<not> tuple_gt m ?r" using r(2) tuple_gt_trans[of p m ?r] by (auto split: if_splits)
  have 3: "\<not> tuple_gt p ?r" using r(2) tuple_gt_neg_trans[of p m ?r] by (auto split: if_splits)
  from 1 2 3 r(3) show ?case by simp
qed

lemma scored_set:
  "set (scored w ks) = {(ratio x w, x) | x. x \<in> set ks \<and> 7 / 10 \<le> ratio x w}"
  unfolding scored_def by (induction ks) auto

lemma get_close_matches_empty:
  "get_close_matches w ks = [] \<longleftrightarrow> (\<forall>c \<in> set ks. ratio c w < 7 / 10)"
proof -
  let ?l = "scored w ks"
  have "get_close_matches w ks = [] \<longleftrightarrow> ?l = []"
    by (simp add: get_close_matches_def split: list.splits)
  also have "\<dots> \<longleftrightarrow> set ?l = {}" by simp
  also have "\<dots> \<longleftrightarrow> (\<forall>c \<in> set ks. ratio c w < 7 / 10)"
    unfolding scored_set by (auto simp: not_le[symmetric])
  finally show ?thesis .
qed

lemma get_close_matches_best:
  assumes "get_close_matches w ks = b # bs"
  shows "bs = [] \<and> b \<in> set ks \<and> 7 / 10 \<le> ratio b w
         \<and> (\<forall>c \<in> set ks. 7 / 10 \<le> ratio c w \<longrightarrow> \<not> tuple_gt (ratio c w, c) (ratio b w, b))"
proof -
  let ?l = "scored w ks"
  from assms obtain p ps where l: "?l = p # ps" and b: "b = snd (py_max p ps)" and bs: "bs = []"
    by (auto simp: get_close_matches_def split: list.splits)
  let ?r = "py_max p ps"
  from py_max_props[of p ps] have r: "?r \<in> set ?l" "\<forall>q \<in> set ?l. \<not> tuple_gt q ?r"
    unfolding l by auto
  from r(1) have rb: "?r = (ratio b w, b)" "b \<in> set ks" "7 / 10 \<le> ratio b w"
    unfolding scored_set using b by auto
  have "\<not> tuple_gt (ratio c w, c) (ratio b w, b)" if "c \<in> set ks" "7 / 10 \<le> ratio c w" for c
  proof -
    from that have "(ratio c w, c) \<in> set ?l" unfolding scored_set by blast
    with r(2) rb(1) show ?thesis by auto
  qed
  with bs rb show ?thesis by blast
qed

lemma fuzzy_loop_skip:
  "\<forall>u \<in> set pre. gcm u (dict_keys fm) = [] \<Longrightarrow>
   fuzzy_loop gcm fm (pre @ rest) = fuzzy_loop gcm fm rest"
  by (induction pre) auto

lemma fuzzy_loop_ok: "\<exists>v. fuzzy_loop get_close_matches fm ws = Inr v"
proof (induction ws)
  case Nil
  then show ?case by simp
next
  case (Cons w ws)
  show ?case
  proof (cases "get_close_matches w (dict_keys fm)")
    case Nil
    with Cons show ?thesis by simp
  next
    case (Cons b bs)
    from get_close_matches_best[OF this] have "b \<in> set (dict_keys fm)" by simp
    from dict_lookup_key[OF this] Cons show ?thesis by auto
  qed
qed

text \<open>
  C2. When no key is a substring of the normalized description, the words are tried from
  left to right: the first word \<open>w\<close> for which some key has a similarity ratio of at least
  \<open>0.7\<close> (a ratio of exactly \<open>0.7\<close> is accepted) decides, whatever the later words are,
  and the factor returned is that of the key with the highest ratio to \<open>w\<close>.
\<close>

theorem fuzzy_tier_first_word:
  assumes fm: "factor_map db = Inr fm"
      and nosub: "\<forall>c \<in> set (dict_keys fm). \<not> sublist c (py_strip (py_lower d))"
      and ws: "py_split (py_strip (py_lower d)) = pre @ w # post"
      and pre: "\<forall>u \<in> set pre. \<forall>c \<in> set (dict_keys fm). ratio c u < 7 / 10"
      and w: "\<exists>c \<in> set (dict_keys fm). 7 / 10 \<le> ratio c w"
  shows "\<exists>best v.
           best \<in> set (dict_keys fm) \<and> 7 / 10 \<le> ratio best w
           \<and> (\<forall>c \<in> set (dict_keys fm).
                 ratio c w \<le> ratio best w \<and> (ratio c w = ratio best w \<longrightarrow> c \<le> best))
           \<and> dict_get fm best = Some v
           \<and> get_emission_factor (Str d) db = Inr v"
proof -
  let ?ks = "dict_keys fm"
  from w have "get_close_matches w ?ks \<noteq> []" by (auto simp: get_close_matches_empty not_less)
  then obtain best bs where g: "get_close_matches w ?ks = best # bs"
    by (cases "get_close_matches w ?ks") auto
  from get_close_matches_best[OF g] have best: "best \<in> set ?ks" "7 / 10 \<le> ratio best w"
    and top: "\<forall>c \<in> set ?ks. 7 / 10 \<le> ratio c w \<longrightarrow> \<not> tuple_gt (ratio c w, c) (ratio best w, best)"
    by simp_all
  have rank: "ratio c w \<le> ratio best w \<and> (ratio c w = ratio best w \<longrightarrow> c \<le> best)"
    if c: "c \<in> set ?ks" for c
  proof (cases "7 / 10 \<le> ratio c w")
    case True
    with top c have "\<not> tuple_gt (ratio c w, c) (ratio best w, best)" by simp
    then show ?thesis by (auto simp: tuple_gt_def not_less)
  next
    case False
    with best(2) show ?thesis by auto
  qed
  from dict_lookup_key[OF best(1)] obtain v
    where v: "dict_get fm best = Some v" "dict_lookup fm best = Inr v" by blast
  have skip: "\<forall>u \<in> set pre. get_close_matches u ?ks = []"
    using pre by (simp add: get_close_matches_empty)
  have "fuzzy_loop get_close_matches fm (pre @ w # post) = Inr v"
    using fuzzy_loop_skip[where gcm = get_close_matches and rest = "w # post", OF skip] g v
    by simp
  moreover have "substring_loop fm (py_strip (py_lower d)) ?ks = None"
    using nosub by (rule substring_loop_none)
  ultimately have "get_emission_factor (Str d) db = Inr v"
    using fm ws by (simp add: get_emission_factor_def get_emission_factor_with_def)
  with best rank v show ?thesis by blast
qed

lemma fuzzy_tier_no_word:
  assumes fm: "factor_map db = Inr fm"
      and nosub: "\<forall>c \<in> set (dict_keys fm). \<not> sublist c (py_strip (py_lower d))"
      and none: "\<forall>u \<in> set (py_split (py_strip (py_lower d))). \<forall>c \<in> set (dict_keys fm). ratio c u < 7 / 10"
  shows "get_emission_factor (Str d) db = Inr (Fin 0)"
proof -
  let ?ks = "dict_keys fm"
  have skip: "\<forall>u \<in> set (py_split (py_strip (py_lower d))). get_close_matches u ?ks = []"
    using none by (simp add: get_close_matches_empty)
  have "fuzzy_loop get_close_matches fm (py_split (py_strip (py_lower d))) = Inr (Fin 0)"
    using fuzzy_loop_skip[where gcm = get_close_matches and rest = "[]", OF skip] by simp
  moreover have "substring_loop fm (py_strip (py_lower d)) ?ks = None"
    using nosub by (rule substring_loop_none)
  ultimately show ?thesis
    using fm by (simp add: get_emission_factor_def get_emission_factor_with_def)
qed

lemma get_emission_factor_ok:
  assumes "list_all factor_record_ok db"
  shows "\<exists>f. get_emission_factor (Str d) db = Inr f"
proof -
  from factor_map_loop_ok[OF assms, of "[]"] obtain fm where fm: "factor_map db = Inr fm"
    by (auto simp: factor_map_def)
  let ?clean = "py_strip (py_lower d)"
  show ?thesis
  proof (cases "\<exists>c \<in> set (dict_keys fm). sublist c ?clean")
    case True
    from first_substring_category_decides[OF fm True] show ?thesis by blast
  next
    case False
    then have "substring_loop fm ?clean (dict_keys fm) = None"
      by (intro substring_loop_none) simp
    with fm fuzzy_loop_ok[of fm "py_split ?clean"] show ?thesis
      by (auto simp: get_emission_factor_def get_emission_factor_with_def)
  qed
qed

text \<open>
  The first word scores exactly \<open>0.7\<close> against \<open>abcdefghij\<close> and decides (factor 1),
  although the second word scores \<open>10/11\<close> against \<open>coffee\<close>.
\<close>

theorem fuzzy_tier_first_word_witness:
  "ratio ''abcdefghij'' ''abcdefgxyz'' = 7 / 10
   \<and> ratio ''coffee'' ''coffe'' = 10 / 11
   \<and> (\<exists>best v. ratio best ''abcdefgxyz'' = 7 / 10
         \<and> dict_get [(''abcdefghij'', Fin 1), (''coffee'', Fin 5)] best = Some v
         \<and> get_emission_factor (Str ''Abcdefgxyz Coffe'')
             [[(''category'', Str ''abcdefghij''), (''factor_kg_co2_per_unit'', Str ''1.0'')],
              [(''category'', Str ''coffee''), (''factor_kg_co2_per_unit'', Str ''5.0'')]]
            = Inr v \<and> v = Fin 1)"
proof -
  let ?db = "[[(''category'', Str ''abcdefghij''), (''factor_kg_co2_per_unit'', Str ''1.0'')],
              [(''category'', Str ''coffee''), (''factor_kg_co2_per_unit'', Str ''5.0'')]]"
  let ?fm = "[(''abcdefghij'', Fin 1), (''coffee'', Fin 5)]"
  let ?d = "''Abcdefgxyz Coffe''"
  have fm: "factor_map ?db = Inr ?fm" by code_simp
  have r1: "ratio ''abcdefghij'' ''abcdefgxyz'' = 7 / 10" by code_simp
  have r2: "ratio ''coffee'' ''coffe'' = 10 / 11" by code_simp
  have r3: "ratio ''coffee'' ''abcdefgxyz'' = 1 / 4" by code_simp
  have nosub: "\<forall>c \<in> set (dict_keys ?fm). \<not> sublist c (py_strip (py_lower ?d))"
    by code_simp
  have ws: "py_split (py_strip (py_lower ?d)) = [] @ ''abcdefgxyz'' # [''coffe'']"
    by code_simp
  have pre: "\<forall>u \<in> set []. \<forall>c \<in> set (dict_keys ?fm). ratio c u < 7 / 10" by simp
  have w: "\<exists>c \<in> set (dict_keys ?fm). 7 / 10 \<le> ratio c ''abcdefgxyz''"
    using r1 by (simp add: dict_keys_def)
  from fuzzy_tier_first_word[OF fm nosub ws pre w] obtain best v
    where best: "best \<in> set (dict_keys ?fm)" "7 / 10 \<le> ratio best ''abcdefgxyz''"
      and v: "dict_get ?fm best = Some v" "get_emission_factor (Str ?d) ?db = Inr v"
    by blast
  from best r3 have b: "best = ''abcdefghij''" by (auto simp: dict_keys_def)
  with v(1) have "v = Fin 1" by (simp add: dict_get_def)
  with b r1 r2 v show ?thesis by blast
qed

section \<open>Properties of the emissions calculator\<close>

lemma row_description_text: "description_is_text r \<Longrightarrow> \<exists>d. row_description r = Str d"
  by (auto simp: description_is_text_def row_description_def split: option.splits pyval.splits)

lemma process_row_ok:
  assumes "list_all factor_record_ok db" and "description_is_text r"
  shows "\<exists>f. get_emission_factor (row_description r) db = Inr f
           \<and> process_row r db
               = Inr (dict_set ''total_line_co2'' (Num (fmul (row_quantity r) f))
                       (dict_set ''matched_factor'' (Num f) r))"
proof -
  from row_description_text[OF assms(2)] obtain d where d: "row_description r = Str d" by blast
  from get_emission_factor_ok[OF assms(1), of d] obtain f
    where "get_emission_factor (Str d) db = Inr f" by blast
  with d show ?thesis by (simp add: process_row_def Let_def)
qed

lemma calculate_nth:
  assumes "list_all factor_record_ok db" and "\<forall>r \<in> set rows. description_is_text r"
  shows "\<exists>out. calculate_invoice_emissions rows db = Inr out \<and> length out = length rows
           \<and> (\<forall>i < length rows. process_row (rows ! i) db = Inr (out ! i))"
  using assms(2)
proof (induction rows)
  case Nil
  then show ?case by simp
next
  case (Cons r rows)
  from process_row_ok[OF assms(1), of r] Cons.prems obtain nr
    where nr: "process_row r db = Inr nr" by auto
  from Cons obtain out where out: "calculate_invoice_emissions rows db = Inr out"
    "length out = length rows" "\<forall>i < length rows. process_row (rows ! i) db = Inr (out ! i)"
    by auto
  have "\<forall>i < length (r # rows). process_row ((r # rows) ! i) db = Inr ((nr # out) ! i)"
    using nr out(3) by (auto simp: nth_Cons split: nat.splits)
  with nr out(1,2) show ?case by simp
qed

text \<open>
  C7. For every sequence of invoice lines whose description is text or absent, and every
  reference table whose records carry both fields, \<open>calculate_invoice_emissions\<close> returns
  as many lines as it was given, in the same order; the \<open>i\<close>-th output line carries the
  factor that the matcher returns for the description of the \<open>i\<close>-th input line, and
  \<open>total_line_co2\<close> is the parsed quantity multiplied by that factor.
\<close>

theorem calculate_same_length_and_order:
  assumes "list_all factor_record_ok db" and "\<forall>r \<in> set rows. description_is_text r"
  shows "\<exists>out. calculate_invoice_emissions rows db = Inr out \<and> length out = length rows
           \<and> (\<forall>i < length rows. \<exists>f.
                 get_emission_factor (row_description (rows ! i)) db = Inr f
                 \<and> dict_get (out ! i) ''matched_factor'' = Some (Num f)
                 \<and> dict_get (out ! i) ''total_line_co2''
                     = Some (Num (fmul (row_quantity (rows ! i)) f))
                 \<and> (\<forall>k. k \<noteq> ''matched_factor'' \<and> k \<noteq> ''total_line_co2''
                       \<longrightarrow> dict_get (out ! i) k = dict_get (rows ! i) k))"
proof -
  from calculate_nth[OF assms] obtain out
    where out: "calculate_invoice_emissions rows db = Inr out" "length out = length rows"
      and nth: "\<forall>i < length rows. process_row (rows ! i) db = Inr (out ! i)" by blast
  have "\<exists>f. get_emission_factor (row_description (rows ! i)) db = Inr f
          \<and> dict_get (out ! i) ''matched_factor'' = Some (Num f)
          \<and> dict_get (out ! i) ''total_line_co2'' = Some (Num (fmul (row_quantity (rows ! i)) f))
          \<and> (\<forall>k. k \<noteq> ''matched_factor'' \<and> k \<noteq> ''total_line_co2''
                \<longrightarrow> dict_get (out ! i) k = dict_get (rows ! i) k)"
    if i: "i < length rows" for i
  proof -
    from i assms(2) have "description_is_text (rows ! i)" by simp
    from process_row_ok[OF assms(1) this] nth i obtain f
      where f: "get_emission_factor (row_description (rows ! i)) db = Inr f"
        and o: "out ! i = dict_set ''total_line_co2'' (Num (fmul (row_quantity (rows ! i)) f))
                       (dict_set ''matched_factor'' (Num f) (rows ! i))"
      by auto
    show ?thesis
      by (rule exI[of _ f]) (simp add: f o dict_get_set)
  qed
  with out show ?thesis by blast
qed

lemma process_row_st_eq:
  "process_row_st h r db =
     (case process_row (h ! r) db of Inl e \<Rightarrow> Inl e | Inr nr \<Rightarrow> Inr (length h, h @ [nr]))"
  by (simp add: process_row_st_def process_row_def Let_def split: sum.splits)

lemma calculate_st_eq:
  "\<forall>a \<in> set refs. a < length h \<Longrightarrow>
   calculate_invoice_emissions_st h refs db =
     (case calculate_invoice_emissions (map ((!) h) refs) db of
        Inl e \<Rightarrow> Inl e
      | Inr out \<Rightarrow> Inr ([length h ..< length h + length out], h @ out))"
proof (induction refs arbitrary: h)
  case Nil
  then show ?case by simp
next
  case (Cons r refs)
  show ?case
  proof (cases "process_row (h ! r) db")
    case (Inl e)
    then show ?thesis by (simp add: process_row_st_eq)
  next
    case (Inr nr)
    let ?h = "h @ [nr]"
    from Cons.prems have valid: "\<forall>a \<in> set refs. a < length ?h" by auto
    from Cons.prems have same: "map ((!) ?h) refs = map ((!) h) refs"
      by (auto simp: nth_append)
    show ?thesis
      using Inr Cons.IH[OF valid] same
      by (auto simp: process_row_st_eq upt_rec[of "length h"] split: sum.splits)
  qed
qed

text \<open>Three lines: an exact match, a typo with an unparsable quantity, no description.\<close>

theorem calculate_same_length_and_order_witness:
  "\<exists>out. calculate_invoice_emissions
       [[(''item_description'', Str ''Laptop''), (''quantity'', Str ''2''), (''vendor'', Str ''X'')],
        [(''item_description'', Str ''Coffe''), (''quantity'', Str ''abc'')],
        [(''quantity'', Str ''3'')]]
       [[(''category'', Str ''laptop''), (''factor_kg_co2_per_unit'', Str ''250.0'')],
        [(''category'', Str ''coffee''), (''factor_kg_co2_per_unit'', Str ''5.0'')]] = Inr out
     \<and> length out = 3
     \<and> dict_get (out ! 0) ''total_line_co2'' = Some (Num (Fin 500))
     \<and> dict_get (out ! 0) ''vendor'' = Some (Str ''X'')
     \<and> dict_get (out ! 1) ''total_line_co2'' = Some (Num (Fin 5))
     \<and> dict_get (out ! 2) ''matched_factor'' = Some (Num (Fin 0))"
proof -
  let ?a = "[(''item_description'', Str ''Laptop''), (''quantity'', Str ''2''), (''vendor'', Str ''X'')]"
  let ?b = "[(''item_description'', Str ''Coffe''), (''quantity'', Str ''abc'')]"
  let ?c = "[(''quantity'', Str ''3'')]"
  let ?rows = "[?a, ?b, ?c]"
  let ?db = "[[(''category'', Str ''laptop''), (''factor_kg_co2_per_unit'', Str ''250.0'')],
        [(''category'', Str ''coffee''), (''factor_kg_co2_per_unit'', Str ''5.0'')]]"
  have ok: "list_all factor_record_ok ?db" by code_simp
  have dtext: "\<forall>r \<in> set ?rows. description_is_text r" by code_simp
  have fa: "get_emission_factor (row_description ?a) ?db = Inr (Fin 250)" by code_simp
  have fb: "get_emission_factor (row_description ?b) ?db = Inr (Fin 5)" by code_simp
  have fc: "get_emission_factor (row_description ?c) ?db = Inr (Fin 0)" by code_simp
  have qa: "row_quantity ?a = Fin 2" by code_simp
  have qb: "row_quantity ?b = Fin 1" by code_simp
  from calculate_same_length_and_order[OF ok dtext] obtain out
    where run: "calculate_invoice_emissions ?rows ?db = Inr out" "length out = length ?rows"
      and each: "\<forall>i < length ?rows. \<exists>f.
                 get_emission_factor (row_description (?rows ! i)) ?db = Inr f
                 \<and> dict_get (out ! i) ''matched_factor'' = Some (Num f)
                 \<and> dict_get (out ! i) ''total_line_co2''
                     = Some (Num (fmul (row_quantity (?rows ! i)) f))
                 \<and> (\<forall>k. k \<noteq> ''matched_factor'' \<and> k \<noteq> ''total_line_co2''
                       \<longrightarrow> dict_get (out ! i) k = dict_get (?rows ! i) k)"
    by blast
  from each[rule_format, of 0] fa qa
  have a: "dict_get (out ! 0) ''total_line_co2'' = Some (Num (Fin 500))"
    "dict_get (out ! 0) ''vendor'' = Some (Str ''X'')"
    by (auto simp: dict_get_def)
  from each[rule_format, of 1] fb qb
  have b: "dict_get (out ! 1) ''total_line_co2'' = Some (Num (Fin 5))" by auto
  from each[rule_format, of 2] fc
  have c: "dict_get (out ! 2) ''matched_factor'' = Some (Num (Fin 0))" by auto
  from run a b c show ?thesis by simp
qed

text \<open>
  C9. Without raising: for a line that has no \<open>item_description\<close> the factor is the one
  that the matcher returns for \<open>Unknown\<close>; for a line whose \<open>quantity\<close> is absent or does
  not parse the quantity is \<open>1.0\<close>; otherwise it is the parsed number.
\<close>

theorem description_and_quantity_defaults:
  assumes ok: "list_all factor_record_ok db"
      and dtext: "\<forall>r \<in> set rows. description_is_text r"
  shows "\<exists>out. calculate_invoice_emissions rows db = Inr out
           \<and> (\<forall>i < length rows. \<exists>f.
                 dict_get (out ! i) ''matched_factor'' = Some (Num f)
                 \<and> (dict_get (rows ! i) ''item_description'' = None
                      \<longrightarrow> get_emission_factor (Str ''Unknown'') db = Inr f)
                 \<and> (dict_get (rows ! i) ''quantity'' = None
                      \<longrightarrow> dict_get (out ! i) ''total_line_co2'' = Some (Num (fmul (Fin 1) f)))
                 \<and> (\<forall>v. dict_get (rows ! i) ''quantity'' = Some v \<and> py_float v = None
                      \<longrightarrow> dict_get (out ! i) ''total_line_co2'' = Some (Num (fmul (Fin 1) f)))
                 \<and> (\<forall>v q. dict_get (rows ! i) ''quantity'' = Some v \<and> py_float v = Some q
                      \<longrightarrow> dict_get (out ! i) ''total_line_co2'' = Some (Num (fmul q f))))"
proof -
  from calculate_nth[OF ok dtext] obtain out
    where out: "calculate_invoice_emissions rows db = Inr out"
      and nth: "\<forall>i < length rows. process_row (rows ! i) db = Inr (out ! i)" by blast
  have "\<exists>f. dict_get (out ! i) ''matched_factor'' = Some (Num f)
          \<and> (dict_get (rows ! i) ''item_description'' = None
                \<longrightarrow> get_emission_factor (Str ''Unknown'') db = Inr f)
          \<and> (dict_get (rows ! i) ''quantity'' = None
                \<longrightarrow> dict_get (out ! i) ''total_line_co2'' = Some (Num (fmul (Fin 1) f)))
          \<and> (\<forall>v. dict_get (rows ! i) ''quantity'' = Some v \<and> py_float v = None
                \<longrightarrow> dict_get (out ! i) ''total_line_co2'' = Some (Num (fmul (Fin 1) f)))
          \<and> (\<forall>v q. dict_get (rows ! i) ''quantity'' = Some v \<and> py_float v = Some q
                \<longrightarrow> dict_get (out ! i) ''total_line_co2'' = Some (Num (fmul q f)))"
    if i: "i < length rows" for i
  proof -
    let ?r = "rows ! i"
    from i dtext have "description_is_text ?r" by simp
    from process_row_ok[OF ok this] nth i obtain f
      where f: "get_emission_factor (row_description ?r) db = Inr f"
        and o: "out ! i = dict_set ''total_line_co2'' (Num (fmul (row_quantity ?r) f))
                       (dict_set ''matched_factor'' (Num f) ?r)"
      by auto
    have d: "dict_get ?r ''item_description'' = None \<longrightarrow> row_description ?r = Str ''Unknown''"
      by (simp add: row_description_def)
    have q1: "dict_get ?r ''quantity'' = None \<longrightarrow> row_quantity ?r = Fin 1"
      by (simp add: row_quantity_def)
    have q2: "\<forall>v. dict_get ?r ''quantity'' = Some v \<and> py_float v = None
        \<longrightarrow> row_quantity ?r = Fin 1"
      by (simp add: row_quantity_def)
    have q3: "\<forall>v q. dict_get ?r ''quantity'' = Some v \<and> py_float v = Some q
        \<longrightarrow> row_quantity ?r = q"
      by (simp add: row_quantity_def)
    have tl: "dict_get (out ! i) ''total_line_co2'' = Some (Num (fmul (row_quantity ?r) f))"
      and mf: "dict_get (out ! i) ''matched_factor'' = Some (Num f)"
      by (simp_all add: o dict_get_set)
    show ?thesis
      using f d q1 q2 q3 tl mf by (intro exI[of _ f]) auto
  qed
  with out show ?thesis by blast
qed

text \<open>
  A line without description and quantity, a line with an unparsable quantity, and a line
  with quantity 1.5, against a table that knows the category \<open>unknown\<close>.
\<close>

theorem description_and_quantity_defaults_witness:
  "\<exists>out. calculate_invoice_emissions
       [[(''vendor'', Str ''X'')], [(''item_description'', Str ''misc''), (''quantity'', Str ''two'')],
        [(''quantity'', Str ''1.5'')]]
       [[(''category'', Str ''unknown''), (''factor_kg_co2_per_unit'', Str ''7'')]] = Inr out
     \<and> get_emission_factor (Str ''Unknown'')
          [[(''category'', Str ''unknown''), (''factor_kg_co2_per_unit'', Str ''7'')]] = Inr (Fin 7)
     \<and> dict_get (out ! 0) ''matched_factor'' = Some (Num (Fin 7))
     \<and> dict_get (out ! 0) ''total_line_co2'' = Some (Num (Fin 7))
     \<and> dict_get (out ! 1) ''total_line_co2'' = Some (Num (Fin 0))
     \<and> dict_get (out ! 2) ''total_line_co2'' = Some (Num (Fin (21 / 2)))"
proof -
  let ?a = "[(''vendor'', Str ''X'')]"
  let ?b = "[(''item_description'', Str ''misc''), (''quantity'', Str ''two'')]"
  let ?c = "[(''quantity'', Str ''1.5'')]"
  let ?rows = "[?a, ?b, ?c]"
  let ?db = "[[(''category'', Str ''unknown''), (''factor_kg_co2_per_unit'', Str ''7'')]]"
  have ok: "list_all factor_record_ok ?db" by code_simp
  have dtext: "\<forall>r \<in> set ?rows. description_is_text r" by code_simp
  have fu: "get_emission_factor (Str ''Unknown'') ?db = Inr (Fin 7)" by code_simp
  have qb: "py_float (Str ''two'') = None" by code_simp
  have qc: "py_float (Str ''1.5'') = Some (Fin (3 / 2))" by code_simp
  from description_and_quantity_defaults[OF ok dtext] obtain out
    where run: "calculate_invoice_emissions ?rows ?db = Inr out"
      and each: "\<forall>i < length ?rows. \<exists>f.
                 dict_get (out ! i) ''matched_factor'' = Some (Num f)
                 \<and> (dict_get (?rows ! i) ''item_description'' = None
                      \<longrightarrow> get_emission_factor (Str ''Unknown'') ?db = Inr f)
                 \<and> (dict_get (?rows ! i) ''quantity'' = None
                      \<longrightarrow> dict_get (out ! i) ''total_line_co2'' = Some (Num (fmul (Fin 1) f)))
                 \<and> (\<forall>v. dict_get (?rows ! i) ''quantity'' = Some v \<and> py_float v = None
                      \<longrightarrow> dict_get (out ! i) ''total_line_co2'' = Some (Num (fmul (Fin 1) f)))
                 \<and> (\<forall>v q. dict_get (?rows ! i) ''quantity'' = Some v \<and> py_float v = Some q
                      \<longrightarrow> dict_get (out ! i) ''total_line_co2'' = Some (Num (fmul q f)))"
    by blast
  from each[rule_format, of 0] fu
  have a: "dict_get (out ! 0) ''matched_factor'' = Some (Num (Fin 7))"
    "dict_get (out ! 0) ''total_line_co2'' = Some (Num (Fin 7))"
    by (auto simp: dict_get_def)
  from each[rule_format, of 2] obtain f
    where f: "dict_get (out ! 2) ''matched_factor'' = Some (Num f)"
      "get_emission_factor (Str ''Unknown'') ?db = Inr f"
      "dict_get (out ! 2) ''total_line_co2'' = Some (Num (fmul (Fin (3 / 2)) f))"
    using qc by (auto simp: dict_get_def)
  with fu have c: "dict_get (out ! 2) ''total_line_co2'' = Some (Num (Fin (21 / 2)))" by simp
  have b: "dict_get (out ! 1) ''total_line_co2'' = Some (Num (Fin 0))"
  proof -
    from each[rule_format, of 1] obtain g
      where g: "dict_get (out ! 1) ''matched_factor'' = Some (Num g)"
        "dict_get (out ! 1) ''total_line_co2'' = Some (Num (fmul (Fin 1) g))"
      using qb by (auto simp: dict_get_def)
    have "calculate_invoice_emissions ?rows ?db
        = Inr [[(''vendor'', Str ''X''), (''matched_factor'', Num (Fin 7)),
                (''total_line_co2'', Num (Fin 7))],
               [(''item_description'', Str ''misc''), (''quantity'', Str ''two''),
                (''matched_factor'', Num (Fin 0)), (''total_line_co2'', Num (Fin 0))],
               [(''quantity'', Str ''1.5''), (''matched_factor'', Num (Fin 7)),
                (''total_line_co2'', Num (Fin (21 / 2)))]]"
      by code_simp
    with run have "dict_get (out ! 1) ''matched_factor'' = Some (Num (Fin 0))"
      by (auto simp: dict_get_def)
    with g show ?thesis by simp
  qed
  from run fu a b c show ?thesis by blast
qed

lemma dict_keys_set_set: "set (dict_keys (dict_set k v d)) = insert k (set (dict_keys d))"
  by (auto simp: dict_keys_set)

lemma map_nth_append_upt: "map ((!) (h @ out)) [length h ..< length h + length out] = out"
  by (rule nth_equalityI) (auto simp: nth_append)

text \<open>
  C8, as amended. \<open>calculate_invoice_emissions\<close> leaves every object of the store as it was
  (the input mappings are not mutated); each emitted record is a new object whose fields are
  the fields of the input line together with \<open>matched_factor\<close> and \<open>total_line_co2\<close>;
  every field other than these two has its original value, and these two hold the computed
  values.
\<close>

theorem copy_leaves_original_and_keeps_other_fields:
  assumes ok: "list_all factor_record_ok db"
      and valid: "\<forall>a \<in> set refs. a < length h \<and> description_is_text (h ! a)"
  shows "\<exists>out h'. calculate_invoice_emissions_st h refs db = Inr (out, h')
           \<and> (\<forall>a < length h. a < length h' \<and> h' ! a = h ! a)
           \<and> length out = length refs
           \<and> (\<forall>i < length refs.
                 length h \<le> out ! i \<and> out ! i < length h'
                 \<and> (\<forall>k. k \<noteq> ''matched_factor'' \<and> k \<noteq> ''total_line_co2''
                       \<longrightarrow> dict_get (h' ! (out ! i)) k = dict_get (h ! (refs ! i)) k)
                 \<and> set (dict_keys (h' ! (out ! i)))
                     = set (dict_keys (h ! (refs ! i))) \<union> {''matched_factor'', ''total_line_co2''}
                 \<and> (\<exists>f. get_emission_factor (row_description (h ! (refs ! i))) db = Inr f
                       \<and> dict_get (h' ! (out ! i)) ''matched_factor'' = Some (Num f)
                       \<and> dict_get (h' ! (out ! i)) ''total_line_co2''
                           = Some (Num (fmul (row_quantity (h ! (refs ! i))) f))))
           \<and> calculate_invoice_emissions (map ((!) h) refs) db = Inr (map ((!) h') out)"
proof -
  let ?rows = "map ((!) h) refs"
  from valid have dtext: "\<forall>r \<in> set ?rows. description_is_text r" by simp
  from calculate_nth[OF ok dtext] obtain rs
    where rs: "calculate_invoice_emissions ?rows db = Inr rs" "length rs = length refs"
      and nth: "\<forall>i < length refs. process_row (h ! (refs ! i)) db = Inr (rs ! i)" by auto
  let ?out = "[length h ..< length h + length rs]"
  let ?h = "h @ rs"
  from valid have "\<forall>a \<in> set refs. a < length h" by simp
  from calculate_st_eq[OF this, of db] rs(1)
  have run: "calculate_invoice_emissions_st h refs db = Inr (?out, ?h)" by simp
  have frame: "\<forall>a < length h. a < length ?h \<and> ?h ! a = h ! a" by (simp add: nth_append)
  have len: "length ?out = length refs" using rs(2) by simp
  have same: "calculate_invoice_emissions ?rows db = Inr (map ((!) ?h) ?out)"
    using rs(1) by (simp only: map_nth_append_upt)
  have each: "length h \<le> ?out ! i \<and> ?out ! i < length ?h
      \<and> (\<forall>k. k \<noteq> ''matched_factor'' \<and> k \<noteq> ''total_line_co2''
            \<longrightarrow> dict_get (?h ! (?out ! i)) k = dict_get (h ! (refs ! i)) k)
      \<and> set (dict_keys (?h ! (?out ! i)))
           = set (dict_keys (h ! (refs ! i))) \<union> {''matched_factor'', ''total_line_co2''}
      \<and> (\<exists>f. get_emission_factor (row_description (h ! (refs ! i))) db = Inr f
            \<and> dict_get (?h ! (?out ! i)) ''matched_factor'' = Some (Num f)
            \<and> dict_get (?h ! (?out ! i)) ''total_line_co2''
                = Some (Num (fmul (row_quantity (h ! (refs ! i))) f)))"
    if i: "i < length refs" for i
  proof -
    from i valid have "description_is_text (h ! (refs ! i))" by simp
    from process_row_ok[OF ok this] nth i obtain f
      where f: "get_emission_factor (row_description (h ! (refs ! i))) db = Inr f"
        and o: "rs ! i = dict_set ''total_line_co2'' (Num (fmul (row_quantity (h ! (refs ! i))) f))
                       (dict_set ''matched_factor'' (Num f) (h ! (refs ! i)))"
      by auto
    from i rs(2) have at: "?out ! i = length h + i" "?h ! (length h + i) = rs ! i"
      by simp_all
    have "\<exists>f'. get_emission_factor (row_description (h ! (refs ! i))) db = Inr f'
            \<and> dict_get (?h ! (?out ! i)) ''matched_factor'' = Some (Num f')
            \<and> dict_get (?h ! (?out ! i)) ''total_line_co2''
                = Some (Num (fmul (row_quantity (h ! (refs ! i))) f'))"
      by (rule exI[of _ f]) (simp only: at o f dict_get_set, simp)
    moreover have "\<forall>k. k \<noteq> ''matched_factor'' \<and> k \<noteq> ''total_line_co2''
            \<longrightarrow> dict_get (?h ! (?out ! i)) k = dict_get (h ! (refs ! i)) k"
      by (simp only: at o dict_get_set) simp
    moreover have "set (dict_keys (?h ! (?out ! i)))
           = set (dict_keys (h ! (refs ! i))) \<union> {''matched_factor'', ''total_line_co2''}"
      by (simp only: at o dict_keys_set_set) auto
    moreover have "length h \<le> ?out ! i \<and> ?out ! i < length ?h"
      using i rs(2) by simp
    ultimately show ?thesis by blast
  qed
  show ?thesis
  proof (intro exI[of _ ?out] exI[of _ ?h] conjI)
    show "calculate_invoice_emissions_st h refs db = Inr (?out, ?h)" by (rule run)
    show "\<forall>a < length h. a < length ?h \<and> ?h ! a = h ! a" by (rule frame)
    show "length ?out = length refs" by (rule len)
    show "calculate_invoice_emissions ?rows db = Inr (map ((!) ?h) ?out)" by (rule same)
    show "\<forall>i < length refs.
                 length h \<le> ?out ! i \<and> ?out ! i < length ?h
                 \<and> (\<forall>k. k \<noteq> ''matched_factor'' \<and> k \<noteq> ''total_line_co2''
                       \<longrightarrow> dict_get (?h ! (?out ! i)) k = dict_get (h ! (refs ! i)) k)
                 \<and> set (dict_keys (?h ! (?out ! i)))
                     = set (dict_keys (h ! (refs ! i))) \<union> {''matched_factor'', ''total_line_co2''}
                 \<and> (\<exists>f. get_emission_factor (row_description (h ! (refs ! i))) db = Inr f
                       \<and> dict_get (?h ! (?out ! i)) ''matched_factor'' = Some (Num f)
                       \<and> dict_get (?h ! (?out ! i)) ''total_line_co2''
                           = Some (Num (fmul (row_quantity (h ! (refs ! i))) f)))"
      using each by blast
  qed
qed

text \<open>
  A store of two lines, the first of them referenced twice: both stay as they were, and the
  first emitted record is a new object.
\<close>

theorem copy_leaves_original_and_keeps_other_fields_witness:
  "\<exists>out h'. calculate_invoice_emissions_st
       [[(''item_description'', Str ''Laptop''), (''matched_factor'', Str ''manual'')],
        [(''quantity'', Str ''3'')]]
       [0, 1, 0]
       [[(''category'', Str ''laptop''), (''factor_kg_co2_per_unit'', Str ''250.0'')]]
       = Inr (out, h')
     \<and> h' ! 0 = [(''item_description'', Str ''Laptop''), (''matched_factor'', Str ''manual'')]
     \<and> h' ! 1 = [(''quantity'', Str ''3'')]
     \<and> length out = 3
     \<and> 2 \<le> out ! 0
     \<and> dict_get (h' ! (out ! 0)) ''item_description'' = Some (Str ''Laptop'')
     \<and> dict_get (h' ! (out ! 0)) ''matched_factor'' = Some (Num (Fin 250))"
proof -
  define a where "a = [(''item_description'', Str ''Laptop''), (''matched_factor'', Str ''manual'')]"
  define b where "b = [(''quantity'', Str ''3'')]"
  define h where "h = [a, b]"
  define refs where "refs = [0, 1, 0 :: nat]"
  define db where "db = [[(''category'', Str ''laptop''), (''factor_kg_co2_per_unit'', Str ''250.0'')]]"
  have ok: "list_all factor_record_ok db" unfolding db_def by code_simp
  have valid: "\<forall>r \<in> set refs. r < length h \<and> description_is_text (h ! r)"
    unfolding refs_def h_def a_def b_def by code_simp
  have fa: "get_emission_factor (row_description a) db = Inr (Fin 250)"
    unfolding a_def db_def by code_simp
  have da: "dict_get a ''item_description'' = Some (Str ''Laptop'')"
    unfolding a_def by (simp add: dict_get_def)
  have at: "length h = 2" "h ! 0 = a" "h ! 1 = b" "length refs = 3" "refs ! 0 = 0"
    by (simp_all add: h_def refs_def)
  note inst = copy_leaves_original_and_keeps_other_fields[OF ok valid]
  then obtain out where "\<exists>h'. calculate_invoice_emissions_st h refs db = Inr (out, h')
           \<and> (\<forall>r < length h. r < length h' \<and> h' ! r = h ! r)
           \<and> length out = length refs
           \<and> (\<forall>i < length refs.
                 length h \<le> out ! i \<and> out ! i < length h'
                 \<and> (\<forall>k. k \<noteq> ''matched_factor'' \<and> k \<noteq> ''total_line_co2''
                       \<longrightarrow> dict_get (h' ! (out ! i)) k = dict_get (h ! (refs ! i)) k)
                 \<and> set (dict_keys (h' ! (out ! i)))
                     = set (dict_keys (h ! (refs ! i))) \<union> {''matched_factor'', ''total_line_co2''}
                 \<and> (\<exists>f. get_emission_factor (row_description (h ! (refs ! i))) db = Inr f
                       \<and> dict_get (h' ! (out ! i)) ''matched_factor'' = Some (Num f)
                       \<and> dict_get (h' ! (out ! i)) ''total_line_co2''
                           = Some (Num (fmul (row_quantity (h ! (refs ! i))) f))))
           \<and> calculate_invoice_emissions (map ((!) h) refs) db = Inr (map ((!) h') out)" ..
  then obtain h' where run: "calculate_invoice_emissions_st h refs db = Inr (out, h')"
      and frame: "\<forall>r < length h. r < length h' \<and> h' ! r = h ! r"
      and len: "length out = length refs"
      and each: "\<forall>i < length refs.
                 length h \<le> out ! i \<and> out ! i < length h'
                 \<and> (\<forall>k. k \<noteq> ''matched_factor'' \<and> k \<noteq> ''total_line_co2''
                       \<longrightarrow> dict_get (h' ! (out ! i)) k = dict_get (h ! (refs ! i)) k)
                 \<and> set (dict_keys (h' ! (out ! i)))
                     = set (dict_keys (h ! (refs ! i))) \<union> {''matched_factor'', ''total_line_co2''}
                 \<and> (\<exists>f. get_emission_factor (row_description (h ! (refs ! i))) db = Inr f
                       \<and> dict_get (h' ! (out ! i)) ''matched_factor'' = Some (Num f)
                       \<and> dict_get (h' ! (out ! i)) ''total_line_co2''
                           = Some (Num (fmul (row_quantity (h ! (refs ! i))) f)))"
    by (elim exE conjE)
  from frame at have h0: "h' ! 0 = a" and h1: "h' ! 1 = b" by simp_all
  from each at have e0: "length h \<le> out ! 0"
    and k0: "\<forall>k. k \<noteq> ''matched_factor'' \<and> k \<noteq> ''total_line_co2''
               \<longrightarrow> dict_get (h' ! (out ! 0)) k = dict_get a k"
    and f0: "\<exists>f. get_emission_factor (row_description a) db = Inr f
               \<and> dict_get (h' ! (out ! 0)) ''matched_factor'' = Some (Num f)"
    by force+
  from e0 at have o1: "2 \<le> out ! 0" by simp
  from k0[rule_format, of "''item_description''"] da
  have o2: "dict_get (h' ! (out ! 0)) ''item_description'' = Some (Str ''Laptop'')" by simp
  from f0 fa have o3: "dict_get (h' ! (out ! 0)) ''matched_factor'' = Some (Num (Fin 250))"
    by auto
  from len at have o4: "length out = 3" by simp
  have "calculate_invoice_emissions_st h refs db = Inr (out, h') \<and> h' ! 0 = a \<and> h' ! 1 = b
      \<and> length out = 3 \<and> 2 \<le> out ! 0
      \<and> dict_get (h' ! (out ! 0)) ''item_description'' = Some (Str ''Laptop'')
      \<and> dict_get (h' ! (out ! 0)) ''matched_factor'' = Some (Num (Fin 250))"
    using run h0 h1 o1 o2 o3 o4 by (intro conjI)
  then show ?thesis unfolding h_def refs_def db_def a_def b_def by (intro exI)
qed

text \<open>
  C8 as stated fails for a line that already has a field \<open>matched_factor\<close>: its value is
  replaced by the computed factor.
\<close>

theorem existing_field_overwritten_counterexample:
  "dict_get [(''item_description'', Str ''Laptop''), (''matched_factor'', Str ''manual'')]
     ''matched_factor'' = Some (Str ''manual'')
   \<and> calculate_invoice_emissions
       [[(''item_description'', Str ''Laptop''), (''matched_factor'', Str ''manual'')]]
       [[(''category'', Str ''laptop''), (''factor_kg_co2_per_unit'', Str ''250.0'')]]
     = Inr [[(''item_description'', Str ''Laptop''), (''matched_factor'', Num (Fin 250)),
             (''total_line_co2'', Num (Fin 250))]]"
  by code_simp

text \<open>
  C5. A factor record without the field \<open>factor_kg_co2_per_unit\<close> (a short row of the
  CSV file) makes \<open>get_emission_factor\<close> and \<open>calculate_invoice_emissions\<close> raise
  \<open>KeyError\<close>: only \<open>ValueError\<close> is caught in the loop that builds the index.
\<close>

theorem missing_factor_field_raises:
  "get_emission_factor (Str ''Laptop'')
     [[(''category'', Str ''laptop''), (''factor_kg_co2_per_unit'', Str ''250.0'')],
      [(''category'', Str ''coffee'')]]
     = Inl (KeyError ''factor_kg_co2_per_unit'')
   \<and> calculate_invoice_emissions
       [[(''item_description'', Str ''Laptop''), (''quantity'', Str ''2'')]]
       [[(''category'', Str ''laptop''), (''factor_kg_co2_per_unit'', Str ''250.0'')],
        [(''category'', Str ''coffee'')]]
     = Inl (KeyError ''factor_kg_co2_per_unit'')"
  by code_simp

text \<open>
  Two more inputs on which the pipeline does not end in a report with total 0.0: a line
  without description makes the report raise, and an infinite quantity gives a NaN total.
\<close>

lemma report_raises_without_description:
  "calculate_invoice_emissions [[(''quantity'', Str ''2'')]] []
     = Inr [[(''quantity'', Str ''2''), (''matched_factor'', Num (Fin 0)),
             (''total_line_co2'', Num (Fin 0))]]
   \<and> generate_text_report
        [[(''quantity'', Str ''2''), (''matched_factor'', Num (Fin 0)),
          (''total_line_co2'', Num (Fin 0))]]
     = Inl (KeyError ''item_description'')"
  by code_simp

lemma infinite_quantity_total_is_nan:
  "calculate_invoice_emissions [[(''item_description'', Str ''Laptop''), (''quantity'', Str ''inf'')]] []
     = Inr [[(''item_description'', Str ''Laptop''), (''quantity'', Str ''inf''),
             (''matched_factor'', Num (Fin 0)), (''total_line_co2'', Num NaN)]]
   \<and> generate_text_report
        [[(''item_description'', Str ''Laptop''), (''quantity'', Str ''inf''),
             (''matched_factor'', Num (Fin 0)), (''total_line_co2'', Num NaN)]]
     = Inr \<lparr>total_co2 = NaN, highest_item = None, highest_val = Fin (- 1), unmatched_count = 1\<rparr>"
  by code_simp

section \<open>Properties of the aggregation\<close>

lemma fle_not_fgt: "fle x y \<Longrightarrow> \<not> fgt x y"
  by (cases x; cases y) auto

lemma report_loop_below:
  "\<forall>r \<in> set rows. \<exists>x. dict_get r ''total_line_co2'' = Some (Num x) \<and> \<not> fgt x hv
   \<Longrightarrow> \<exists>t. report_loop (tot, item, hv) rows = Inr (t, item, hv)"
proof (induction rows arbitrary: tot)
  case Nil
  then show ?case by simp
next
  case (Cons r rows)
  then obtain x where x: "dict_get r ''total_line_co2'' = Some (Num x)" "\<not> fgt x hv"
    by auto
  from Cons.IH[of "fadd tot x"] Cons.prems obtain t
    where "report_loop (fadd tot x, item, hv) rows = Inr (t, item, hv)" by auto
  with x show ?case by simp
qed

lemma count_unmatched_columns:
  "map (\<lambda>r. dict_get r ''matched_factor'') rows = map Some mfs
   \<Longrightarrow> count_unmatched n rows = Inr (n + length (filter eq_zero mfs))"
proof (induction rows arbitrary: n mfs)
  case Nil
  then show ?case by simp
next
  case (Cons r rows)
  then obtain v vs where mfs: "mfs = v # vs" by (cases mfs) auto
  with Cons.prems have "dict_get r ''matched_factor'' = Some v"
    and "map (\<lambda>r. dict_get r ''matched_factor'') rows = map Some vs" by auto
  with Cons.IH[of vs] mfs show ?case by simp
qed







text \<open>
  C10. The running maximum starts at \<open>-1.0\<close> and is compared with a strict \<open>>\<close>: for every
  sequence of lines (in particular every non-empty one) whose \<open>total_line_co2\<close> are all at
  most \<open>-1.0\<close>, the report has no \<open>highest_item\<close>.
\<close>

theorem highest_item_absent_at_most_minus_one:
  assumes "\<forall>r \<in> set rows. \<exists>x. dict_get r ''total_line_co2'' = Some (Num x) \<and> fle x (Fin (- 1))"
      and "\<forall>r \<in> set rows. \<exists>v. dict_get r ''matched_factor'' = Some v"
  shows "\<exists>rep. generate_text_report rows = Inr rep \<and> highest_item rep = None"
proof -
  from assms(1) have "\<forall>r \<in> set rows. \<exists>x. dict_get r ''total_line_co2'' = Some (Num x)
      \<and> \<not> fgt x (Fin (- 1))"
    by (blast dest: fle_not_fgt)
  from report_loop_below[OF this, of "Fin 0" None] obtain t
    where loop: "report_loop (Fin 0, None, Fin (- 1)) rows = Inr (t, None, Fin (- 1))" by blast
  from assms(2) have "map (\<lambda>r. dict_get r ''matched_factor'') rows
      = map Some (map (\<lambda>r. the (dict_get r ''matched_factor'')) rows)"
    by auto
  from count_unmatched_columns[OF this, of 0] loop show ?thesis
    by (simp add: generate_text_report_def)
qed

text \<open>
  The line that \<open>calculate_invoice_emissions\<close> produces for quantity \<open>-2\<close> of an item with
  factor 250 has \<open>total_line_co2 = -500\<close>; the report on it names no highest item.
\<close>

theorem highest_item_absent_at_most_minus_one_witness:
  "\<exists>rep. generate_text_report
       [[(''item_description'', Str ''Laptop''), (''quantity'', Str ''-2''),
         (''matched_factor'', Num (Fin 250)), (''total_line_co2'', Num (Fin (- 500)))]] = Inr rep
     \<and> highest_item rep = None"
  using highest_item_absent_at_most_minus_one[of
      "[[(''item_description'', Str ''Laptop''), (''quantity'', Str ''-2''),
         (''matched_factor'', Num (Fin 250)), (''total_line_co2'', Num (Fin (- 500)))]]"]
  by (simp add: dict_get_def)

lemma negative_quantity_line:
  "calculate_invoice_emissions
     [[(''item_description'', Str ''Laptop''), (''quantity'', Str ''-2'')]]
     [[(''category'', Str ''laptop''), (''factor_kg_co2_per_unit'', Str ''250.0'')]]
   = Inr [[(''item_description'', Str ''Laptop''), (''quantity'', Str ''-2''),
           (''matched_factor'', Num (Fin 250)), (''total_line_co2'', Num (Fin (- 500)))]]"
  by code_simp

end
